theory Spec2Isabelle
  imports Main "HOL-Library.Sublist"
begin

section \<open>Punchax: extension discovery and extension lifecycle\<close>

text \<open>
  A shallow embedding of \<^verbatim>\<open>src/bot.py\<close> (class \<^verbatim>\<open>Punchax\<close>) and of the extension
  commands of \<^verbatim>\<open>src/cogs/admin.py\<close> (class \<^verbatim>\<open>Admin\<close>). Python strings are
  \<^typ>\<open>string\<close>, a raised exception is the \<open>Inl\<close> branch of a sum, and every function that
  mutates the bot returns the bot it leaves behind, also when it raises.
\<close>

subsection \<open>Python string operations\<close>

text \<open>\<^verbatim>\<open>s.endswith(t)\<close>.\<close>

definition endswith :: "string \<Rightarrow> string \<Rightarrow> bool" where
  "endswith s t = suffix t s"

text \<open>\<^verbatim>\<open>t in s\<close> for strings: \<open>t\<close> occurs in \<open>s\<close> as a contiguous substring.\<close>

definition contains :: "string \<Rightarrow> string \<Rightarrow> bool" where
  "contains s t = sublist t s"

text \<open>
  \<^verbatim>\<open>s.replace(old, new)\<close>: the occurrences of \<open>old\<close> are replaced from the left and do
  not overlap. With an empty \<open>old\<close> Python puts \<open>new\<close> before every character and at the end.
\<close>

function replace :: "string \<Rightarrow> string \<Rightarrow> string \<Rightarrow> string" where
  "replace old new s =
     (if old = [] then new @ concat (map (\<lambda>c. c # new) s)
      else if s = [] then []
      else if prefix old s then new @ replace old new (drop (length old) s)
      else hd s # replace old new (tl s))"
  by pat_completeness auto
termination
  by (relation "measure (\<lambda>(old, new, s). length s)") (auto simp: neq_Nil_conv)

declare replace.simps [simp del]

text \<open>\<^verbatim>\<open>sep.join(xs)\<close>.\<close>

fun join :: "string \<Rightarrow> string list \<Rightarrow> string" where
  "join sep [] = []"
| "join sep [x] = x"
| "join sep (x # y # ys) = x @ sep @ join sep (y # ys)"

text \<open>\<^verbatim>\<open>str(n)\<close> for a natural number, as an f-string prints \<^verbatim>\<open>len(xs)\<close>.\<close>

definition digit :: "nat \<Rightarrow> char" where
  "digit n = ''0123456789'' ! n"

function str_nat :: "nat \<Rightarrow> string" where
  "str_nat n = (if n < 10 then [digit n] else str_nat (n div 10) @ [digit (n mod 10)])"
  by pat_completeness auto
termination
  by (relation "measure (\<lambda>n. n)") auto

declare str_nat.simps [simp del]

subsection \<open>Errors\<close>

text \<open>
  The exceptions the modelled code meets. \<open>FileNotFoundError\<close> is what \<^verbatim>\<open>os.listdir\<close>
  raises on a missing directory; \<open>ExtensionAlreadyLoaded\<close> is the class
  \<^verbatim>\<open>reload_or_load_extension\<close> catches. \<open>LoadError\<close>, \<open>UnloadError\<close> and
  \<open>UnexpectedError\<close> are the kinds the specification gives the host operations below.
  Each carries the text of \<^verbatim>\<open>str(e)\<close>. All of them are instances of \<^verbatim>\<open>Exception\<close>, which is
  what the \<^verbatim>\<open>except Exception\<close> clauses of the commands catch.
\<close>

datatype error =
    FileNotFoundError string
  | ExtensionAlreadyLoaded string
  | LoadError string
  | UnloadError string
  | UnexpectedError string

text \<open>\<^verbatim>\<open>e.__class__.__name__\<close> and \<^verbatim>\<open>str(e)\<close>.\<close>

fun class_name :: "error \<Rightarrow> string" where
  "class_name (FileNotFoundError m) = ''FileNotFoundError''"
| "class_name (ExtensionAlreadyLoaded m) = ''ExtensionAlreadyLoaded''"
| "class_name (LoadError m) = ''LoadError''"
| "class_name (UnloadError m) = ''UnloadError''"
| "class_name (UnexpectedError m) = ''UnexpectedError''"

fun message :: "error \<Rightarrow> string" where
  "message (FileNotFoundError m) = m"
| "message (ExtensionAlreadyLoaded m) = m"
| "message (LoadError m) = m"
| "message (UnloadError m) = m"
| "message (UnexpectedError m) = m"

subsection \<open>Discovery (\<^verbatim>\<open>src/bot.py\<close>)\<close>

definition IGNORED_EXTENSIONS :: "string list" where
  "IGNORED_EXTENSIONS = [''!'', ''__init__'']"

definition EXTENSIONS_DIRS :: "string list" where
  "EXTENSIONS_DIRS = [''./cogs'', ''./cogs/minigames'']"

text \<open>
  The file system as \<^verbatim>\<open>os.listdir\<close> sees it: the names in a directory, in the order
  the call returns them, or \<open>None\<close> when the directory does not exist.
\<close>

type_synonym filesystem = "string \<Rightarrow> string list option"

text \<open>\<^verbatim>\<open>ext_dir.replace("./", "").replace("/", ".")\<close>.\<close>

definition dotted :: "string \<Rightarrow> string" where
  "dotted ext_dir = replace ''/'' ''.'' (replace ''./'' '''' ext_dir)"

text \<open>\<^verbatim>\<open>f"{ext_dir}.{filename[:-3]}"\<close>.\<close>

definition ext_name :: "string \<Rightarrow> string \<Rightarrow> string" where
  "ext_name ext_dir filename = ext_dir @ ''.'' @ take (length filename - 3) filename"

text \<open>\<^verbatim>\<open>any(ignore in filename for ignore in IGNORED_EXTENSIONS)\<close>.\<close>

definition ignored :: "string \<Rightarrow> bool" where
  "ignored filename = list_ex (\<lambda>ignore. contains filename ignore) IGNORED_EXTENSIONS"

text \<open>
  The conditions under which a file name is appended, in \<^verbatim>\<open>get_all_extensions\<close> and in
  \<^verbatim>\<open>get_allowed_extensions\<close>.
\<close>

definition all_cond :: "string \<Rightarrow> bool" where
  "all_cond filename \<longleftrightarrow> endswith filename ''.py'' \<and> filename \<noteq> ''__init__.py''"

definition allowed_cond :: "string \<Rightarrow> bool" where
  "allowed_cond filename \<longleftrightarrow> endswith filename ''.py'' \<and> \<not> ignored filename"

text \<open>
  The inner loop over the file names of one directory. The body assigns to the loop
  variable \<^verbatim>\<open>ext_dir\<close> of the outer loop, so the name is rewritten again at every file
  that passes the condition; the model threads it through.
\<close>

fun scan_files :: "(string \<Rightarrow> bool) \<Rightarrow> string \<Rightarrow> string list \<Rightarrow> string list \<Rightarrow> string list" where
  "scan_files cond ext_dir [] extensions = extensions"
| "scan_files cond ext_dir (filename # rest) extensions =
     (if cond filename
      then scan_files cond (dotted ext_dir) rest (extensions @ [ext_name (dotted ext_dir) filename])
      else scan_files cond ext_dir rest extensions)"

text \<open>The outer loop over the directories; \<^verbatim>\<open>os.listdir\<close> raises on a missing one.\<close>

fun scan_dirs :: "(string \<Rightarrow> bool) \<Rightarrow> filesystem \<Rightarrow> string list \<Rightarrow> string list \<Rightarrow> error + string list" where
  "scan_dirs cond fs [] extensions = Inr extensions"
| "scan_dirs cond fs (ext_dir # dirs) extensions =
     (case fs ext_dir of
        None \<Rightarrow> Inl (FileNotFoundError ext_dir)
      | Some filenames \<Rightarrow> scan_dirs cond fs dirs (scan_files cond ext_dir filenames extensions))"

definition get_all_extensions :: "filesystem \<Rightarrow> error + string list" where
  "get_all_extensions fs = scan_dirs all_cond fs EXTENSIONS_DIRS []"

text \<open>\<^verbatim>\<open>get_allowed_extensions\<close> also prints each directory; the output is not modelled.\<close>

definition get_allowed_extensions :: "filesystem \<Rightarrow> error + string list" where
  "get_allowed_extensions fs = scan_dirs allowed_cond fs EXTENSIONS_DIRS []"

subsection \<open>The host's extension operations\<close>

text \<open>
  The outside world the extensions run in is a value of type \<open>'w\<close>. Running the setup
  or the teardown code of an extension changes it and either returns or raises with a
  message; nothing is assumed about which.
\<close>

record 'w host =
  instantiate :: "'w \<Rightarrow> string \<Rightarrow> string option \<times> 'w"
  teardown :: "'w \<Rightarrow> string \<Rightarrow> string option \<times> 'w"

text \<open>
  The bot: the keys of \<^verbatim>\<open>bot.extensions\<close> in insertion order (the Registry of the
  specification), and the outside world.
\<close>

record 'w bot =
  extensions :: "string list"
  world :: 'w

text \<open>
  Modelled from the spec: \<^verbatim>\<open>Bot.load_extension\<close> belongs to the \<^verbatim>\<open>discord.ext.commands\<close>
  library, which is not part of the sources. Section 4.3 of the specification: load fails
  with the already-loaded error when the identifier is active and with \<open>LoadError\<close> when the
  initialisation raised, the Registry unchanged in both cases; on success the identifier is
  inserted.
\<close>

definition load_extension :: "'w host \<Rightarrow> 'w bot \<Rightarrow> string \<Rightarrow> (error + unit) \<times> 'w bot" where
  "load_extension h b name =
     (if name \<in> set (extensions b) then (Inl (ExtensionAlreadyLoaded name), b)
      else case instantiate h (world b) name of
             (Some m, w) \<Rightarrow> (Inl (LoadError m), b\<lparr>world := w\<rparr>)
           | (None, w) \<Rightarrow> (Inr (), b\<lparr>extensions := extensions b @ [name], world := w\<rparr>))"

text \<open>
  Modelled from the spec: \<^verbatim>\<open>Bot.unload_extension\<close>, of the same library. Section 4.3: on
  success the identifier is removed; when the teardown raised, unload fails with
  \<open>UnloadError\<close> and the identifier stays. The specification does not say what unloading an
  inactive identifier does; here it raises \<open>UnexpectedError\<close> and changes nothing.
\<close>

definition unload_extension :: "'w host \<Rightarrow> 'w bot \<Rightarrow> string \<Rightarrow> (error + unit) \<times> 'w bot" where
  "unload_extension h b name =
     (if name \<notin> set (extensions b) then (Inl (UnexpectedError name), b)
      else case teardown h (world b) name of
             (Some m, w) \<Rightarrow> (Inl (UnloadError m), b\<lparr>world := w\<rparr>)
           | (None, w) \<Rightarrow> (Inr (), b\<lparr>extensions := removeAll name (extensions b), world := w\<rparr>))"

text \<open>
  Modelled from the spec: \<^verbatim>\<open>Bot.reload_extension\<close>, of the same library. Section 4.3:
  unload followed by load, one after the other; a failing unload is the failure of the
  reload, and a load that fails after the unload leaves the identifier unloaded.
\<close>

definition reload_extension :: "'w host \<Rightarrow> 'w bot \<Rightarrow> string \<Rightarrow> (error + unit) \<times> 'w bot" where
  "reload_extension h b name =
     (case unload_extension h b name of
        (Inl e, b') \<Rightarrow> (Inl e, b')
      | (Inr u, b') \<Rightarrow> load_extension h b' name)"

subsection \<open>Startup (\<^verbatim>\<open>Punchax.init_extensions\<close>)\<close>

text \<open>
  The loop of \<^verbatim>\<open>init_extensions\<close>: an exception of \<^verbatim>\<open>load_extension\<close> is logged and
  raised again, which ends the loop. The log line is not modelled.
\<close>

fun init_loop :: "'w host \<Rightarrow> string list \<Rightarrow> 'w bot \<Rightarrow> (error + unit) \<times> 'w bot" where
  "init_loop h [] b = (Inr (), b)"
| "init_loop h (ext # exts) b =
     (case load_extension h b ext of
        (Inl e, b') \<Rightarrow> (Inl e, b')
      | (Inr u, b') \<Rightarrow> init_loop h exts b')"

definition init_extensions :: "'w host \<Rightarrow> filesystem \<Rightarrow> 'w bot \<Rightarrow> (error + unit) \<times> 'w bot" where
  "init_extensions h fs b =
     (case get_allowed_extensions fs of
        Inl e \<Rightarrow> (Inl e, b)
      | Inr exts \<Rightarrow> init_loop h exts b)"

subsection \<open>The extension commands (\<^verbatim>\<open>src/cogs/admin.py\<close>)\<close>

datatype ExtensionState = loaded | unloaded | reloaded

text \<open>
  The commands \<^verbatim>\<open>load\<close>, \<^verbatim>\<open>unload\<close> and \<^verbatim>\<open>reload\<close>: the text they reply with, and the bot
  afterwards.
\<close>

definition load :: "'w host \<Rightarrow> 'w bot \<Rightarrow> string \<Rightarrow> string \<times> 'w bot" where
  "load h b extension =
     (case load_extension h b extension of
        (Inl e, b') \<Rightarrow>
          (''**Failed loading `'' @ extension @ ''`!**\<newline>```'' @ class_name e @ '': '' @ message e @ ''```'', b')
      | (Inr u, b') \<Rightarrow> (''**Successfully loaded `'' @ extension @ ''`!**'', b'))"

definition unload :: "'w host \<Rightarrow> 'w bot \<Rightarrow> string \<Rightarrow> string \<times> 'w bot" where
  "unload h b extension =
     (case unload_extension h b extension of
        (Inl e, b') \<Rightarrow>
          (''**Failed unloading `'' @ extension @ ''`!**\<newline>```'' @ class_name e @ '': '' @ message e @ ''```'', b')
      | (Inr u, b') \<Rightarrow> (''**Successfully unloaded `'' @ extension @ ''`!**'', b'))"

definition reload :: "'w host \<Rightarrow> 'w bot \<Rightarrow> string \<Rightarrow> string \<times> 'w bot" where
  "reload h b extension =
     (case reload_extension h b extension of
        (Inl e, b') \<Rightarrow>
          (''**Failed reloading `'' @ extension @ ''`!**\<newline>```'' @ class_name e @ '': '' @ message e @ ''```'', b')
      | (Inr u, b') \<Rightarrow> (''**Successfully reloaded `'' @ extension @ ''`!**'', b'))"

text \<open>
  \<^verbatim>\<open>reload_or_load_extension\<close>: only \<^verbatim>\<open>ExtensionAlreadyLoaded\<close> is caught; any other
  exception of the load, and any exception of the reload, leaves the function.
\<close>

definition reload_or_load_extension ::
  "'w host \<Rightarrow> 'w bot \<Rightarrow> string \<Rightarrow> (error + ExtensionState) \<times> 'w bot" where
  "reload_or_load_extension h b extension =
     (case load_extension h b extension of
        (Inr u, b') \<Rightarrow> (Inr loaded, b')
      | (Inl (ExtensionAlreadyLoaded m), b') \<Rightarrow>
          (case reload_extension h b' extension of
             (Inr u, b'') \<Rightarrow> (Inr reloaded, b'')
           | (Inl e, b'') \<Rightarrow> (Inl e, b''))
      | (Inl e, b') \<Rightarrow> (Inl e, b'))"

text \<open>\<^verbatim>\<open>f"`{extension}`"\<close> and \<^verbatim>\<open>f"`{extension}`: `{e.__class__.__name__}`"\<close>.\<close>

definition ext_str :: "string \<Rightarrow> string" where
  "ext_str extension = ''`'' @ extension @ ''`''"

definition failed_str :: "string \<Rightarrow> error \<Rightarrow> string" where
  "failed_str extension e = ''`'' @ extension @ ''`: `'' @ class_name e @ ''`''"

text \<open>
  The four lists \<^verbatim>\<open>loaded\<close>, \<^verbatim>\<open>unloaded\<close>, \<^verbatim>\<open>reloaded\<close> and \<^verbatim>\<open>failed\<close> that
  \<^verbatim>\<open>_reload_all\<close> fills. (The field names carry a suffix: the plain names are the members
  of \<^verbatim>\<open>_ExtensionState\<close>.)
\<close>

record cog_lists =
  loaded_items :: "string list"
  unloaded_items :: "string list"
  reloaded_items :: "string list"
  failed_items :: "string list"

definition no_items :: cog_lists where
  "no_items = \<lparr>loaded_items = [], unloaded_items = [], reloaded_items = [], failed_items = []\<rparr>"

text \<open>\<^verbatim>\<open>[ext for ext in self.bot.extensions if ext not in available_extensions]\<close>.\<close>

definition future_unload :: "'w bot \<Rightarrow> string list \<Rightarrow> string list" where
  "future_unload b available_extensions =
     filter (\<lambda>ext. ext \<notin> set available_extensions) (extensions b)"

text \<open>The first loop of \<^verbatim>\<open>_reload_all\<close>, over \<^verbatim>\<open>future_unload\<close>.\<close>

fun unload_loop :: "'w host \<Rightarrow> string list \<Rightarrow> cog_lists \<Rightarrow> 'w bot \<Rightarrow> cog_lists \<times> 'w bot" where
  "unload_loop h [] r b = (r, b)"
| "unload_loop h (extension # rest) r b =
     (case unload_extension h b extension of
        (Inr u, b') \<Rightarrow>
          unload_loop h rest (r\<lparr>unloaded_items := unloaded_items r @ [ext_str extension]\<rparr>) b'
      | (Inl e, b') \<Rightarrow>
          unload_loop h rest (r\<lparr>failed_items := failed_items r @ [failed_str extension e]\<rparr>) b')"

text \<open>The second loop, over \<^verbatim>\<open>available_extensions\<close>.\<close>

fun load_loop :: "'w host \<Rightarrow> string list \<Rightarrow> cog_lists \<Rightarrow> 'w bot \<Rightarrow> cog_lists \<times> 'w bot" where
  "load_loop h [] r b = (r, b)"
| "load_loop h (extension # rest) r b =
     (case reload_or_load_extension h b extension of
        (Inl e, b') \<Rightarrow>
          load_loop h rest (r\<lparr>failed_items := failed_items r @ [failed_str extension e]\<rparr>) b'
      | (Inr ext_state, b') \<Rightarrow>
          (if ext_state = loaded
           then load_loop h rest (r\<lparr>loaded_items := loaded_items r @ [ext_str extension]\<rparr>) b'
           else if ext_state = reloaded
           then load_loop h rest (r\<lparr>reloaded_items := reloaded_items r @ [ext_str extension]\<rparr>) b'
           else load_loop h rest r b'))"

text \<open>Both loops of \<^verbatim>\<open>_reload_all\<close>, from the list of available extensions on.\<close>

definition reload_all_lists :: "'w host \<Rightarrow> 'w bot \<Rightarrow> string list \<Rightarrow> cog_lists \<times> 'w bot" where
  "reload_all_lists h b available_extensions =
     (case unload_loop h (future_unload b available_extensions) no_items b of
        (r, b') \<Rightarrow> load_loop h available_extensions r b')"

text \<open>
  The names \<^verbatim>\<open>Emoji\<close> and \<^verbatim>\<open>Color\<close> come from \<^verbatim>\<open>cogs/common.py\<close>, which is not part of
  the sources; the values used are parameters.
\<close>

record common =
  emoji_arrow_up :: string
  emoji_arrow_down :: string
  emoji_arrows_counterclockwise :: string
  emoji_x :: string
  color_info :: nat

record embed =
  color :: nat
  description :: string
  title :: "string option"

definition create_cogs_embed ::
  "common \<Rightarrow> string list \<Rightarrow> string list \<Rightarrow> string list option \<Rightarrow> string list option \<Rightarrow> embed" where
  "create_cogs_embed c lo un reloaded_arg failed_arg =
     (let re = (case reloaded_arg of None \<Rightarrow> [] | Some xs \<Rightarrow> xs);
          fa = (case failed_arg of None \<Rightarrow> [] | Some xs \<Rightarrow> xs);
          loaded_content = join ''\<newline>'' lo;
          unloaded_content = join ''\<newline>'' un;
          reloaded_content = join ''\<newline>'' re;
          failed_content = join ''\<newline>'' fa;
          loaded_content =
            (if length lo > 0
             then emoji_arrow_up c @ '' **Loaded - ['' @ str_nat (length lo) @ '']**\<newline>''
                    @ loaded_content @ ''\<newline>\<newline>''
             else loaded_content);
          unloaded_content =
            (if length un > 0
             then emoji_arrow_down c @ '' **Unloaded - ['' @ str_nat (length un) @ '']**\<newline>''
                    @ unloaded_content @ ''\<newline>\<newline>''
             else unloaded_content);
          reloaded_content =
            (if length re > 0
             then emoji_arrows_counterclockwise c @ '' **Reloaded - ['' @ str_nat (length re) @ '']**\<newline>''
                    @ reloaded_content @ ''\<newline>\<newline>''
             else reloaded_content);
          failed_content =
            (if length fa > 0
             then emoji_x c @ '' **Failed - ['' @ str_nat (length fa) @ '']**\<newline>'' @ failed_content
             else failed_content)
      in \<lparr>color = color_info c,
          description = loaded_content @ unloaded_content @ reloaded_content @ failed_content,
          title = None\<rparr>)"

text \<open>
  The command \<^verbatim>\<open>reload all\<close>: the embed it replies with, or the exception that leaves
  it, and the bot afterwards. The call of \<^verbatim>\<open>get_allowed_extensions\<close> is outside every
  \<^verbatim>\<open>try\<close>.
\<close>

definition reload_all ::
  "common \<Rightarrow> 'w host \<Rightarrow> filesystem \<Rightarrow> 'w bot \<Rightarrow> (error + embed) \<times> 'w bot" where
  "reload_all c h fs b =
     (case get_allowed_extensions fs of
        Inl e \<Rightarrow> (Inl e, b)
      | Inr available_extensions \<Rightarrow>
          (case reload_all_lists h b available_extensions of
             (r, b') \<Rightarrow>
               (Inr ((create_cogs_embed c (loaded_items r) (unloaded_items r)
                        (Some (reloaded_items r)) (Some (failed_items r)))
                      \<lparr>title := Some ''Cogs Update''\<rparr>), b')))"

text \<open>The two lists of the command \<^verbatim>\<open>cogs list\<close>, and the command.\<close>

definition cogs_list_unloaded :: "'w bot \<Rightarrow> string list \<Rightarrow> string list" where
  "cogs_list_unloaded b all_extensions =
     map ext_str (filter (\<lambda>ext. ext \<notin> set (extensions b)) all_extensions)"

definition cogs_list_loaded :: "'w bot \<Rightarrow> string list" where
  "cogs_list_loaded b = map ext_str (extensions b)"

definition cogs_list :: "common \<Rightarrow> filesystem \<Rightarrow> 'w bot \<Rightarrow> error + embed" where
  "cogs_list c fs b =
     (case get_all_extensions fs of
        Inl e \<Rightarrow> Inl e
      | Inr all_extensions \<Rightarrow>
          Inr ((create_cogs_embed c (cogs_list_loaded b) (cogs_list_unloaded b all_extensions) None None)
                \<lparr>title := Some ''Cogs List''\<rparr>))"

subsection \<open>Example inputs\<close>

text \<open>
  A file system with both configured directories, a host whose world is trivial and in
  which the setup of \<open>cogs.error\<close> and the teardown of \<open>cogs.old\<close> raise, and a bot with
  three active extensions.
\<close>

definition example_fs :: filesystem where
  "example_fs d =
     (if d = ''./cogs'' then Some [''admin.py'', ''!dev.py'', ''__init__.py'', ''error.py'', ''notes.txt'']
      else if d = ''./cogs/minigames'' then Some [''tictactoe.py'']
      else None)"

definition missing_fs :: filesystem where
  "missing_fs d = (if d = ''./cogs'' then Some [''admin.py''] else None)"

definition example_host :: "unit host" where
  "example_host =
     \<lparr>instantiate = (\<lambda>w name. (if name = ''cogs.error'' then Some ''boom'' else None, w)),
      teardown = (\<lambda>w name. (if name = ''cogs.old'' then Some ''stuck'' else None, w))\<rparr>"

definition example_bot :: "unit bot" where
  "example_bot = \<lparr>extensions = [''cogs.admin'', ''cogs.gone'', ''cogs.old''], world = ()\<rparr>"

definition fresh_bot :: "unit bot" where
  "fresh_bot = \<lparr>extensions = [], world = ()\<rparr>"

definition example_common :: common where
  "example_common =
     \<lparr>emoji_arrow_up = '':arrow_up:'', emoji_arrow_down = '':arrow_down:'',
      emoji_arrows_counterclockwise = '':arrows_counterclockwise:'', emoji_x = '':x:'',
      color_info = 0\<rparr>"

text \<open>
  The list \<^verbatim>\<open>get_allowed_extensions\<close> returns on \<open>example_fs\<close>, and what the two loops of
  \<^verbatim>\<open>_reload_all\<close> make of it from \<open>example_bot\<close>.
\<close>

definition example_desired :: "string list" where
  "example_desired = [''cogs.admin'', ''cogs.error'', ''cogs.minigames.tictactoe'']"

definition example_lists :: cog_lists where
  "example_lists =
     \<lparr>loaded_items = [''`cogs.minigames.tictactoe`''], unloaded_items = [''`cogs.gone`''],
      reloaded_items = [''`cogs.admin`''],
      failed_items = [''`cogs.old`: `UnloadError`'', ''`cogs.error`: `LoadError`'']\<rparr>"

definition example_bot_after :: "unit bot" where
  "example_bot_after = \<lparr>extensions = [''cogs.old'', ''cogs.admin'', ''cogs.minigames.tictactoe''], world = ()\<rparr>"

text \<open>
  The lists of a second pass over \<open>example_desired\<close>, from \<open>example_bot_after\<close>.
\<close>

definition example_lists_again :: cog_lists where
  "example_lists_again =
     \<lparr>loaded_items = [], unloaded_items = [],
      reloaded_items = [''`cogs.admin`'', ''`cogs.minigames.tictactoe`''],
      failed_items = [''`cogs.old`: `UnloadError`'', ''`cogs.error`: `LoadError`'']\<rparr>"

section \<open>Discovery: what the two variants return\<close>

lemma dotted_cogs: "dotted ''./cogs'' = ''cogs''"
  by code_simp

lemma dotted_cogs_again: "dotted ''cogs'' = ''cogs''"
  by code_simp

lemma dotted_minigames: "dotted ''./cogs/minigames'' = ''cogs.minigames''"
  by code_simp

lemma dotted_minigames_again: "dotted ''cogs.minigames'' = ''cogs.minigames''"
  by code_simp

text \<open>
  Rewriting \<^verbatim>\<open>ext_dir\<close> at every file changes nothing after the first time, so the inner
  loop appends the name of every file that passes the condition, in order.
\<close>

lemma scan_files_eq:
  "dotted e = n \<Longrightarrow> dotted n = n \<Longrightarrow>
   scan_files cond e filenames acc = acc @ map (ext_name n) (filter cond filenames)"
  by (induction filenames arbitrary: e acc) auto

lemma scan_dirs_configured:
  "scan_dirs cond fs EXTENSIONS_DIRS [] = Inr out \<longleftrightarrow>
     (\<exists>n1 n2. fs ''./cogs'' = Some n1 \<and> fs ''./cogs/minigames'' = Some n2 \<and>
        out = map (ext_name ''cogs'') (filter cond n1)
              @ map (ext_name ''cogs.minigames'') (filter cond n2))"
  by (auto simp: EXTENSIONS_DIRS_def scan_files_eq[OF dotted_cogs dotted_cogs_again]
      scan_files_eq[OF dotted_minigames dotted_minigames_again] split: option.splits)

lemma allowed_imp_all: "allowed_cond f \<Longrightarrow> all_cond f"
  unfolding allowed_cond_def all_cond_def ignored_def IGNORED_EXTENSIONS_def contains_def endswith_def
  by (auto simp: suffix_def)

lemma set_map_filter_mono:
  "(\<And>x. P x \<Longrightarrow> Q x) \<Longrightarrow> set (map f (filter P xs)) \<subseteq> set (map f (filter Q xs))"
  by auto

lemma strip_py: "endswith f ''.py'' \<Longrightarrow> f = take (length f - 3) f @ ''.py''"
  by (auto simp: endswith_def suffix_def)

lemma ext_name_same_dir:
  assumes "endswith f ''.py''" "endswith g ''.py''" "ext_name n f = ext_name n g"
  shows "f = g"
proof -
  from assms(3) have "take (length f - 3) f = take (length g - 3) g"
    by (simp add: ext_name_def)
  with strip_py[OF assms(1)] strip_py[OF assms(2)] show ?thesis by metis
qed

text \<open>
  The two configured directories can give the same name: \<open>minigames.x.py\<close> in \<open>./cogs\<close>
  and \<open>x.py\<close> in \<open>./cogs/minigames\<close>.
\<close>

lemma ext_name_cross:
  assumes "endswith f ''.py''" "endswith g ''.py''"
    and "ext_name ''cogs'' f = ext_name ''cogs.minigames'' g"
  shows "f = ''minigames.'' @ g"
proof -
  from assms(3) have "take (length f - 3) f = ''minigames.'' @ take (length g - 3) g"
    by (simp add: ext_name_def)
  with strip_py[OF assms(1)] strip_py[OF assms(2)] show ?thesis
    by (metis append.assoc)
qed

lemma contains_after_prefix:
  "t \<noteq> [] \<Longrightarrow> hd t \<notin> set p \<Longrightarrow> contains (p @ g) t \<longleftrightarrow> contains g t"
proof (induction p)
  case Nil
  then show ?case by simp
next
  case (Cons a p)
  then have "\<not> prefix t (a # p @ g)"
    by (cases t) auto
  with Cons show ?case
    by (simp add: contains_def sublist_Cons_right)
qed

lemma ignored_minigames: "ignored (''minigames.'' @ g) \<longleftrightarrow> ignored g"
proof -
  have "contains (''minigames.'' @ g) ''!'' \<longleftrightarrow> contains g ''!''"
    by (rule contains_after_prefix) simp_all
  moreover have "contains (''minigames.'' @ g) ''__init__'' \<longleftrightarrow> contains g ''__init__''"
    by (rule contains_after_prefix) simp_all
  ultimately show ?thesis
    by (simp add: ignored_def IGNORED_EXTENSIONS_def del: append.simps)
qed

text \<open>
  Claim C9. For the same directory contents, every identifier the filtered variant
  (\<^verbatim>\<open>get_allowed_extensions\<close>) returns is also returned by the unfiltered variant
  (\<^verbatim>\<open>get_all_extensions\<close>), which succeeds whenever the filtered one does: the filter
  rejects every file name that contains \<open>__init__\<close>, the unfiltered condition rejects
  only the name \<open>__init__.py\<close>, and so every name the filter accepts also passes the
  unfiltered condition.
\<close>

theorem filtered_subset_unfiltered:
  assumes "get_allowed_extensions fs = Inr allowed"
  shows "(\<exists>every. get_all_extensions fs = Inr every \<and> set allowed \<subseteq> set every)
       \<and> (\<forall>f. endswith f ''.py'' \<and> contains f ''__init__'' \<longrightarrow> \<not> allowed_cond f)
       \<and> (\<forall>f. endswith f ''.py'' \<and> f \<noteq> ''__init__.py'' \<longrightarrow> all_cond f)
       \<and> (\<forall>f. allowed_cond f \<longrightarrow> all_cond f)"
proof -
  from assms obtain n1 n2 where n: "fs ''./cogs'' = Some n1" "fs ''./cogs/minigames'' = Some n2"
    and a: "allowed = map (ext_name ''cogs'') (filter allowed_cond n1)
              @ map (ext_name ''cogs.minigames'') (filter allowed_cond n2)"
    unfolding get_allowed_extensions_def scan_dirs_configured by blast
  let ?every = "map (ext_name ''cogs'') (filter all_cond n1)
              @ map (ext_name ''cogs.minigames'') (filter all_cond n2)"
  have every: "get_all_extensions fs = Inr ?every"
    unfolding get_all_extensions_def scan_dirs_configured using n by blast
  have m: "\<And>f xs. set (map f (filter allowed_cond xs)) \<subseteq> set (map f (filter all_cond xs))"
    by (rule set_map_filter_mono) (rule allowed_imp_all)
  have "set allowed \<subseteq> set ?every"
    unfolding a set_append by (intro Un_mono m)
  with every have "\<exists>every. get_all_extensions fs = Inr every \<and> set allowed \<subseteq> set every"
    by blast
  moreover have "\<forall>f. endswith f ''.py'' \<and> contains f ''__init__'' \<longrightarrow> \<not> allowed_cond f"
    by (simp add: allowed_cond_def ignored_def IGNORED_EXTENSIONS_def)
  moreover have "\<forall>f. endswith f ''.py'' \<and> f \<noteq> ''__init__.py'' \<longrightarrow> all_cond f"
    by (simp add: all_cond_def)
  moreover have "\<forall>f. allowed_cond f \<longrightarrow> all_cond f"
    using allowed_imp_all by blast
  ultimately show ?thesis by blast
qed

theorem filtered_subset_unfiltered_witness:
  "get_allowed_extensions example_fs = Inr [''cogs.admin'', ''cogs.error'', ''cogs.minigames.tictactoe'']
   \<and> (\<exists>every. get_all_extensions example_fs = Inr every
        \<and> set [''cogs.admin'', ''cogs.error'', ''cogs.minigames.tictactoe''] \<subseteq> set every)
   \<and> endswith ''x__init__y.py'' ''.py'' \<and> contains ''x__init__y.py'' ''__init__''
   \<and> \<not> allowed_cond ''x__init__y.py''
   \<and> ''x__init__y.py'' \<noteq> ''__init__.py'' \<and> all_cond ''x__init__y.py''
   \<and> allowed_cond ''admin.py'' \<and> all_cond ''admin.py''"
proof -
  have a: "get_allowed_extensions example_fs
             = Inr [''cogs.admin'', ''cogs.error'', ''cogs.minigames.tictactoe'']"
    by code_simp
  have b: "endswith ''x__init__y.py'' ''.py'' \<and> contains ''x__init__y.py'' ''__init__''"
    by code_simp
  have c: "allowed_cond ''admin.py''"
    by code_simp
  have d: "''x__init__y.py'' \<noteq> ''__init__.py''"
    by simp
  from filtered_subset_unfiltered[OF a] a b c d show ?thesis by blast
qed

text \<open>
  Claim C5, as amended. For a file with the suffix \<open>.py\<close> in a configured directory,
  when both Discovery variants return: the file's identifier is in the filtered output
  if and only if the file name contains none of the ignore substrings; and it is in the
  unfiltered output whenever the file name is not exactly \<open>__init__.py\<close>, whatever the
  ignore substrings say.
\<close>

theorem discovery_filter:
  assumes dir: "ext_dir \<in> set EXTENSIONS_DIRS" "fs ext_dir = Some filenames"
    and fl: "filename \<in> set filenames" "endswith filename ''.py''"
    and allowed: "get_allowed_extensions fs = Inr allowed"
    and every: "get_all_extensions fs = Inr every"
  shows "(ext_name (dotted ext_dir) filename \<in> set allowed \<longleftrightarrow> \<not> ignored filename)
       \<and> (filename \<noteq> ''__init__.py'' \<longrightarrow> ext_name (dotted ext_dir) filename \<in> set every)"
proof -
  from allowed obtain n1 n2 where n: "fs ''./cogs'' = Some n1" "fs ''./cogs/minigames'' = Some n2"
    and a: "allowed = map (ext_name ''cogs'') (filter allowed_cond n1)
              @ map (ext_name ''cogs.minigames'') (filter allowed_cond n2)"
    unfolding get_allowed_extensions_def scan_dirs_configured by blast
  from every n have e: "every = map (ext_name ''cogs'') (filter all_cond n1)
              @ map (ext_name ''cogs.minigames'') (filter all_cond n2)"
    unfolding get_all_extensions_def scan_dirs_configured by auto
  have mem: "x \<in> set allowed \<longleftrightarrow>
      (\<exists>g \<in> set n1. allowed_cond g \<and> x = ext_name ''cogs'' g) \<or>
      (\<exists>g \<in> set n2. allowed_cond g \<and> x = ext_name ''cogs.minigames'' g)" for x
    unfolding a by auto
  have ok: "allowed_cond g \<longleftrightarrow> endswith g ''.py'' \<and> \<not> ignored g" for g
    by (simp add: allowed_cond_def)
  have all_ok: "filename \<noteq> ''__init__.py'' \<longrightarrow> all_cond filename"
    using fl(2) by (simp add: all_cond_def)
  from dir(1) consider "ext_dir = ''./cogs''" | "ext_dir = ''./cogs/minigames''"
    by (auto simp: EXTENSIONS_DIRS_def)
  then show ?thesis
  proof cases
    case 1
    with dir fl n have f: "filename \<in> set n1" and d: "dotted ext_dir = ''cogs''"
      by (simp_all add: dotted_cogs)
    have "ext_name (dotted ext_dir) filename \<in> set allowed \<longleftrightarrow> \<not> ignored filename"
    proof
      assume "ext_name (dotted ext_dir) filename \<in> set allowed"
      then consider g where "g \<in> set n1" "allowed_cond g"
          "ext_name ''cogs'' filename = ext_name ''cogs'' g"
        | g where "g \<in> set n2" "allowed_cond g"
          "ext_name ''cogs'' filename = ext_name ''cogs.minigames'' g"
        unfolding d mem by blast
      then show "\<not> ignored filename"
      proof cases
        case 1
        then have "filename = g"
          using ext_name_same_dir fl(2) ok by blast
        with 1 show ?thesis by (simp add: ok)
      next
        case 2
        then have "filename = ''minigames.'' @ g"
          using ext_name_cross fl(2) ok by blast
        with 2 show ?thesis using ignored_minigames ok by blast
      qed
    next
      assume "\<not> ignored filename"
      with f fl(2) show "ext_name (dotted ext_dir) filename \<in> set allowed"
        unfolding d mem ok by blast
    qed
    moreover have "filename \<noteq> ''__init__.py'' \<longrightarrow> ext_name (dotted ext_dir) filename \<in> set every"
      using all_ok f unfolding d e by simp
    ultimately show ?thesis by blast
  next
    case 2
    with dir fl n have f: "filename \<in> set n2" and d: "dotted ext_dir = ''cogs.minigames''"
      by (simp_all add: dotted_minigames)
    have "ext_name (dotted ext_dir) filename \<in> set allowed \<longleftrightarrow> \<not> ignored filename"
    proof
      assume "ext_name (dotted ext_dir) filename \<in> set allowed"
      then consider g where "g \<in> set n1" "allowed_cond g"
          "ext_name ''cogs'' g = ext_name ''cogs.minigames'' filename"
        | g where "g \<in> set n2" "allowed_cond g"
          "ext_name ''cogs.minigames'' filename = ext_name ''cogs.minigames'' g"
        unfolding d mem by metis
      then show "\<not> ignored filename"
      proof cases
        case 1
        then have "g = ''minigames.'' @ filename"
          using ext_name_cross fl(2) ok by blast
        with 1 show ?thesis using ignored_minigames ok by blast
      next
        case 2
        then have "filename = g"
          using ext_name_same_dir fl(2) ok by blast
        with 2 show ?thesis by (simp add: ok)
      qed
    next
      assume "\<not> ignored filename"
      with f fl(2) show "ext_name (dotted ext_dir) filename \<in> set allowed"
        unfolding d mem ok by blast
    qed
    moreover have "filename \<noteq> ''__init__.py'' \<longrightarrow> ext_name (dotted ext_dir) filename \<in> set every"
      using all_ok f unfolding d e by simp
    ultimately show ?thesis by blast
  qed
qed

theorem discovery_filter_witness:
  "''./cogs'' \<in> set EXTENSIONS_DIRS
   \<and> example_fs ''./cogs'' = Some [''admin.py'', ''!dev.py'', ''__init__.py'', ''error.py'', ''notes.txt'']
   \<and> endswith ''!dev.py'' ''.py''
   \<and> get_allowed_extensions example_fs = Inr [''cogs.admin'', ''cogs.error'', ''cogs.minigames.tictactoe'']
   \<and> get_all_extensions example_fs
       = Inr [''cogs.admin'', ''cogs.!dev'', ''cogs.error'', ''cogs.minigames.tictactoe'']
   \<and> ignored ''!dev.py''
   \<and> ext_name (dotted ''./cogs'') ''!dev.py''
       \<notin> set [''cogs.admin'', ''cogs.error'', ''cogs.minigames.tictactoe'']
   \<and> ''!dev.py'' \<noteq> ''__init__.py''
   \<and> ext_name (dotted ''./cogs'') ''!dev.py''
       \<in> set [''cogs.admin'', ''cogs.!dev'', ''cogs.error'', ''cogs.minigames.tictactoe'']"
proof -
  have d: "''./cogs'' \<in> set EXTENSIONS_DIRS"
    by (simp add: EXTENSIONS_DIRS_def)
  have l: "example_fs ''./cogs''
             = Some [''admin.py'', ''!dev.py'', ''__init__.py'', ''error.py'', ''notes.txt'']"
    by (simp add: example_fs_def)
  have m: "''!dev.py'' \<in> set [''admin.py'', ''!dev.py'', ''__init__.py'', ''error.py'', ''notes.txt'']"
    by simp
  have s: "endswith ''!dev.py'' ''.py''"
    by code_simp
  have a: "get_allowed_extensions example_fs
             = Inr [''cogs.admin'', ''cogs.error'', ''cogs.minigames.tictactoe'']"
    by code_simp
  have e: "get_all_extensions example_fs
             = Inr [''cogs.admin'', ''cogs.!dev'', ''cogs.error'', ''cogs.minigames.tictactoe'']"
    by code_simp
  have i: "ignored ''!dev.py''"
    by code_simp
  have ne: "''!dev.py'' \<noteq> ''__init__.py''"
    by simp
  from discovery_filter[OF d l m s a e] d l s a e i ne show ?thesis by blast
qed

text \<open>
  Claim C5 as stated fails: \<open>__init__.py\<close> has the suffix and lies in a configured
  directory, and its identifier \<open>cogs.__init__\<close> is not in the unfiltered output.
\<close>

theorem discovery_unfiltered_counterexample:
  "''./cogs'' \<in> set EXTENSIONS_DIRS
   \<and> example_fs ''./cogs'' = Some [''admin.py'', ''!dev.py'', ''__init__.py'', ''error.py'', ''notes.txt'']
   \<and> endswith ''__init__.py'' ''.py''
   \<and> ext_name (dotted ''./cogs'') ''__init__.py'' = ''cogs.__init__''
   \<and> get_all_extensions example_fs
       = Inr [''cogs.admin'', ''cogs.!dev'', ''cogs.error'', ''cogs.minigames.tictactoe'']
   \<and> ''cogs.__init__'' \<notin> set [''cogs.admin'', ''cogs.!dev'', ''cogs.error'', ''cogs.minigames.tictactoe'']"
proof -
  have "''./cogs'' \<in> set EXTENSIONS_DIRS"
    by (simp add: EXTENSIONS_DIRS_def)
  moreover have "example_fs ''./cogs''
      = Some [''admin.py'', ''!dev.py'', ''__init__.py'', ''error.py'', ''notes.txt'']"
    by (simp add: example_fs_def)
  moreover have "endswith ''__init__.py'' ''.py''"
    by code_simp
  moreover have "ext_name (dotted ''./cogs'') ''__init__.py'' = ''cogs.__init__''"
    by code_simp
  moreover have "get_all_extensions example_fs
      = Inr [''cogs.admin'', ''cogs.!dev'', ''cogs.error'', ''cogs.minigames.tictactoe'']"
    by code_simp
  moreover have "''cogs.__init__''
      \<notin> set [''cogs.admin'', ''cogs.!dev'', ''cogs.error'', ''cogs.minigames.tictactoe'']"
    by simp
  ultimately show ?thesis by blast
qed

section \<open>Lifecycle: single operations\<close>

lemma load_extension_cases:
  assumes "load_extension h b x = (res, b')"
  obtains (already) "x \<in> set (extensions b)" "res = Inl (ExtensionAlreadyLoaded x)" "b' = b"
  | (raised) m w where "x \<notin> set (extensions b)" "instantiate h (world b) x = (Some m, w)"
      "res = Inl (LoadError m)" "b' = b\<lparr>world := w\<rparr>"
  | (ok) w where "x \<notin> set (extensions b)" "instantiate h (world b) x = (None, w)"
      "res = Inr ()" "b' = b\<lparr>extensions := extensions b @ [x], world := w\<rparr>"
  using assms unfolding load_extension_def
  by (auto split: if_splits prod.splits option.splits)

lemma unload_extension_cases:
  assumes "unload_extension h b x = (res, b')"
  obtains (inactive) "x \<notin> set (extensions b)" "res = Inl (UnexpectedError x)" "b' = b"
  | (raised) m w where "x \<in> set (extensions b)" "teardown h (world b) x = (Some m, w)"
      "res = Inl (UnloadError m)" "b' = b\<lparr>world := w\<rparr>"
  | (ok) w where "x \<in> set (extensions b)" "teardown h (world b) x = (None, w)"
      "res = Inr ()" "b' = b\<lparr>extensions := removeAll x (extensions b), world := w\<rparr>"
  using assms unfolding unload_extension_def
  by (auto split: if_splits prod.splits option.splits)

lemma load_extension_other:
  "load_extension h b x = (res, b') \<Longrightarrow> i \<noteq> x \<Longrightarrow> i \<in> set (extensions b') \<longleftrightarrow> i \<in> set (extensions b)"
  by (erule load_extension_cases) auto

lemma unload_extension_other:
  "unload_extension h b x = (res, b') \<Longrightarrow> i \<noteq> x \<Longrightarrow> i \<in> set (extensions b') \<longleftrightarrow> i \<in> set (extensions b)"
  by (erule unload_extension_cases) auto

lemma load_extension_Inr:
  "load_extension h b x = (Inr u, b') \<Longrightarrow> x \<notin> set (extensions b) \<and> x \<in> set (extensions b')"
  by (erule load_extension_cases) auto

lemma unload_extension_Inr:
  "unload_extension h b x = (Inr u, b') \<Longrightarrow> x \<in> set (extensions b) \<and> x \<notin> set (extensions b')"
  by (erule unload_extension_cases) auto

lemma unload_extension_Inl:
  "unload_extension h b x = (Inl e, b') \<Longrightarrow> extensions b' = extensions b"
  by (erule unload_extension_cases) auto

lemma load_extension_Inl:
  "load_extension h b x = (Inl e, b') \<Longrightarrow> extensions b' = extensions b"
  by (erule load_extension_cases) auto

lemma reload_extension_other:
  "reload_extension h b x = (res, b') \<Longrightarrow> i \<noteq> x \<Longrightarrow> i \<in> set (extensions b') \<longleftrightarrow> i \<in> set (extensions b)"
  unfolding reload_extension_def
  by (auto split: prod.splits sum.splits dest: load_extension_other unload_extension_other)

lemma reload_extension_Inr:
  "reload_extension h b x = (Inr u, b') \<Longrightarrow> x \<in> set (extensions b) \<and> x \<in> set (extensions b')"
  unfolding reload_extension_def
  by (auto split: prod.splits sum.splits dest: load_extension_Inr unload_extension_Inr)

lemma rol_other:
  "reload_or_load_extension h b x = (res, b') \<Longrightarrow> i \<noteq> x \<Longrightarrow> i \<in> set (extensions b') \<longleftrightarrow> i \<in> set (extensions b)"
  unfolding reload_or_load_extension_def
  by (auto split: prod.splits sum.splits error.splits dest: load_extension_other reload_extension_other)

lemma load_extension_already:
  "load_extension h b x = (Inl (ExtensionAlreadyLoaded m), b') \<Longrightarrow> x \<in> set (extensions b) \<and> b' = b"
  by (erule load_extension_cases) auto

lemma rol_Inr:
  "reload_or_load_extension h b x = (Inr c, b') \<Longrightarrow>
     c = (if x \<in> set (extensions b) then reloaded else loaded) \<and> x \<in> set (extensions b')"
  unfolding reload_or_load_extension_def
  by (auto split: prod.splits sum.splits error.splits
      dest: load_extension_Inr reload_extension_Inr load_extension_already)


lemma unload_extension_subset:
  "unload_extension h b x = (res, b') \<Longrightarrow> set (extensions b') \<subseteq> set (extensions b)"
  by (erule unload_extension_cases) auto

subsection \<open>The two loops of the reload-all command\<close>

lemma unload_loop_other:
  "unload_loop h xs r b = (r', b') \<Longrightarrow> i \<notin> set xs \<Longrightarrow>
     i \<in> set (extensions b') \<longleftrightarrow> i \<in> set (extensions b)"
proof (induction xs arbitrary: r b)
  case Nil
  then show ?case by simp
next
  case (Cons x xs)
  obtain res b1 where u: "unload_extension h b x = (res, b1)" by (cases "unload_extension h b x")
  from Cons.prems(2) have ne: "i \<noteq> x" "i \<notin> set xs" by auto
  from Cons.prems(1) u obtain r1 where "unload_loop h xs r1 b1 = (r', b')"
    by (cases res) auto
  from Cons.IH[OF this ne(2)] unload_extension_other[OF u ne(1)] show ?case by simp
qed

lemma unload_loop_subset:
  "unload_loop h xs r b = (r', b') \<Longrightarrow> set (extensions b') \<subseteq> set (extensions b)"
proof (induction xs arbitrary: r b)
  case Nil
  then show ?case by simp
next
  case (Cons x xs)
  obtain res b1 where u: "unload_extension h b x = (res, b1)" by (cases "unload_extension h b x")
  from Cons.prems(1) u obtain r1 where "unload_loop h xs r1 b1 = (r', b')"
    by (cases res) auto
  from Cons.IH[OF this] unload_extension_subset[OF u] show ?case by blast
qed

lemma unload_loop_items:
  "unload_loop h xs r b = (r', b') \<Longrightarrow>
     loaded_items r' = loaded_items r \<and> reloaded_items r' = reloaded_items r \<and>
     (\<exists>us fs. unloaded_items r' = unloaded_items r @ us \<and> failed_items r' = failed_items r @ fs \<and>
        length us + length fs = length xs \<and> set us \<subseteq> ext_str ` set xs \<and>
        (\<forall>f \<in> set fs. \<exists>i \<in> set xs. \<exists>e. f = failed_str i e))"
proof (induction xs arbitrary: r b)
  case Nil
  then show ?case by simp
next
  case (Cons x xs)
  obtain res b1 where u: "unload_extension h b x = (res, b1)" by (cases "unload_extension h b x")
  show ?case
  proof (cases res)
    case (Inl e)
    let ?r1 = "r\<lparr>failed_items := failed_items r @ [failed_str x e]\<rparr>"
    from Cons.prems u Inl have "unload_loop h xs ?r1 b1 = (r', b')" by simp
    from Cons.IH[OF this] obtain us fs where
      a: "loaded_items r' = loaded_items r" "reloaded_items r' = reloaded_items r"
        "unloaded_items r' = unloaded_items r @ us"
        "failed_items r' = failed_items r @ failed_str x e # fs"
        "length us + length fs = length xs" "set us \<subseteq> ext_str ` set xs"
        "(\<forall>f \<in> set fs. \<exists>i \<in> set xs. \<exists>e. f = failed_str i e)"
      by auto
    have "length us + length (failed_str x e # fs) = length (x # xs)" using a(5) by simp
    moreover have "set us \<subseteq> ext_str ` set (x # xs)" using a(6) by auto
    moreover have "\<forall>f \<in> set (failed_str x e # fs). \<exists>i \<in> set (x # xs). \<exists>e. f = failed_str i e"
      using a(7) by auto
    ultimately show ?thesis using a(1-4) by blast
  next
    case (Inr v)
    let ?r1 = "r\<lparr>unloaded_items := unloaded_items r @ [ext_str x]\<rparr>"
    from Cons.prems u Inr have "unload_loop h xs ?r1 b1 = (r', b')" by simp
    from Cons.IH[OF this] obtain us fs where
      a: "loaded_items r' = loaded_items r" "reloaded_items r' = reloaded_items r"
        "unloaded_items r' = unloaded_items r @ ext_str x # us"
        "failed_items r' = failed_items r @ fs"
        "length us + length fs = length xs" "set us \<subseteq> ext_str ` set xs"
        "(\<forall>f \<in> set fs. \<exists>i \<in> set xs. \<exists>e. f = failed_str i e)"
      by auto
    have "length (ext_str x # us) + length fs = length (x # xs)" using a(5) by simp
    moreover have "set (ext_str x # us) \<subseteq> ext_str ` set (x # xs)" using a(6) by auto
    moreover have "\<forall>f \<in> set fs. \<exists>i \<in> set (x # xs). \<exists>e. f = failed_str i e"
      using a(7) by auto
    ultimately show ?thesis using a(1-4) by blast
  qed
qed

lemma unload_loop_failed_mono:
  "unload_loop h xs r b = (r', b') \<Longrightarrow> set (failed_items r) \<subseteq> set (failed_items r')"
  by (drule unload_loop_items) auto

lemma unload_loop_unloaded_mono:
  "unload_loop h xs r b = (r', b') \<Longrightarrow> set (unloaded_items r) \<subseteq> set (unloaded_items r')"
  by (drule unload_loop_items) auto

lemma unload_loop_outcome:
  "unload_loop h xs r b = (r', b') \<Longrightarrow> i \<in> set xs \<Longrightarrow>
     (ext_str i \<in> set (unloaded_items r') \<and> i \<notin> set (extensions b'))
     \<or> (\<exists>e. failed_str i e \<in> set (failed_items r'))"
proof (induction xs arbitrary: r b)
  case Nil
  then show ?case by simp
next
  case (Cons x xs)
  obtain res b1 where u: "unload_extension h b x = (res, b1)" by (cases "unload_extension h b x")
  show ?case
  proof (cases "i = x")
    case True
    show ?thesis
    proof (cases res)
      case (Inl e)
      with Cons.prems u have
        "unload_loop h xs (r\<lparr>failed_items := failed_items r @ [failed_str x e]\<rparr>) b1 = (r', b')"
        by simp
      from unload_loop_failed_mono[OF this] True show ?thesis by auto
    next
      case (Inr v)
      with Cons.prems u have l:
        "unload_loop h xs (r\<lparr>unloaded_items := unloaded_items r @ [ext_str x]\<rparr>) b1 = (r', b')"
        by simp
      from u Inr have "x \<notin> set (extensions b1)" by (auto dest: unload_extension_Inr)
      with unload_loop_subset[OF l] unload_loop_unloaded_mono[OF l] True show ?thesis by auto
    qed
  next
    case False
    with Cons.prems(2) have "i \<in> set xs" by simp
    moreover from Cons.prems(1) u obtain r1 where "unload_loop h xs r1 b1 = (r', b')"
      by (cases res) auto
    ultimately show ?thesis using Cons.IH by blast
  qed
qed


lemma rol_state_cases:
  assumes "reload_or_load_extension h b x = (res, b')"
  obtains (fail) e where "res = Inl e"
  | (load) "res = Inr loaded" "x \<notin> set (extensions b)" "x \<in> set (extensions b')"
  | (reload) "res = Inr reloaded" "x \<in> set (extensions b)" "x \<in> set (extensions b')"
proof (cases res)
  case (Inl e)
  then show ?thesis by (rule fail)
next
  case (Inr c)
  with rol_Inr[of h b x c b'] assms load reload show ?thesis
    by (cases "x \<in> set (extensions b)") auto
qed

lemma load_loop_other:
  "load_loop h xs r b = (r', b') \<Longrightarrow> i \<notin> set xs \<Longrightarrow>
     i \<in> set (extensions b') \<longleftrightarrow> i \<in> set (extensions b)"
proof (induction xs arbitrary: r b)
  case Nil
  then show ?case by simp
next
  case (Cons x xs)
  obtain res b1 where u: "reload_or_load_extension h b x = (res, b1)"
    by (cases "reload_or_load_extension h b x")
  from Cons.prems(2) have ne: "i \<noteq> x" "i \<notin> set xs" by auto
  from Cons.prems(1) u obtain r1 where "load_loop h xs r1 b1 = (r', b')"
    by (cases res) (auto split: if_splits)
  from Cons.IH[OF this ne(2)] rol_other[OF u ne(1)] show ?case by simp
qed

lemma load_loop_items:
  "load_loop h xs r b = (r', b') \<Longrightarrow>
     unloaded_items r' = unloaded_items r \<and>
     (\<exists>ls rs fs. loaded_items r' = loaded_items r @ ls \<and> reloaded_items r' = reloaded_items r @ rs \<and>
        failed_items r' = failed_items r @ fs \<and>
        length ls + length rs + length fs = length xs \<and>
        set ls \<subseteq> ext_str ` set xs \<and> set rs \<subseteq> ext_str ` set xs \<and>
        (\<forall>f \<in> set fs. \<exists>i \<in> set xs. \<exists>e. f = failed_str i e))"
proof (induction xs arbitrary: r b)
  case Nil
  then show ?case by simp
next
  case (Cons x xs)
  obtain res b1 where u: "reload_or_load_extension h b x = (res, b1)"
    by (cases "reload_or_load_extension h b x")
  from u show ?case
  proof (cases rule: rol_state_cases)
    case (fail e)
    let ?r1 = "r\<lparr>failed_items := failed_items r @ [failed_str x e]\<rparr>"
    from Cons.prems u fail have "load_loop h xs ?r1 b1 = (r', b')" by simp
    from Cons.IH[OF this] obtain ls rs fs where
      a: "unloaded_items r' = unloaded_items r" "loaded_items r' = loaded_items r @ ls"
        "reloaded_items r' = reloaded_items r @ rs"
        "failed_items r' = failed_items r @ failed_str x e # fs"
        "length ls + length rs + length fs = length xs"
        "set ls \<subseteq> ext_str ` set xs" "set rs \<subseteq> ext_str ` set xs"
        "\<forall>f \<in> set fs. \<exists>i \<in> set xs. \<exists>e. f = failed_str i e"
      by auto
    have "length ls + length rs + length (failed_str x e # fs) = length (x # xs)" using a(5) by simp
    moreover have "set ls \<subseteq> ext_str ` set (x # xs)" "set rs \<subseteq> ext_str ` set (x # xs)"
      using a(6,7) by auto
    moreover have "\<forall>f \<in> set (failed_str x e # fs). \<exists>i \<in> set (x # xs). \<exists>e. f = failed_str i e"
      using a(8) by auto
    ultimately show ?thesis using a(1-4) by blast
  next
    case load
    let ?r1 = "r\<lparr>loaded_items := loaded_items r @ [ext_str x]\<rparr>"
    from Cons.prems u load have "load_loop h xs ?r1 b1 = (r', b')" by simp
    from Cons.IH[OF this] obtain ls rs fs where
      a: "unloaded_items r' = unloaded_items r" "loaded_items r' = loaded_items r @ ext_str x # ls"
        "reloaded_items r' = reloaded_items r @ rs"
        "failed_items r' = failed_items r @ fs"
        "length ls + length rs + length fs = length xs"
        "set ls \<subseteq> ext_str ` set xs" "set rs \<subseteq> ext_str ` set xs"
        "\<forall>f \<in> set fs. \<exists>i \<in> set xs. \<exists>e. f = failed_str i e"
      by auto
    have "length (ext_str x # ls) + length rs + length fs = length (x # xs)" using a(5) by simp
    moreover have "set (ext_str x # ls) \<subseteq> ext_str ` set (x # xs)" "set rs \<subseteq> ext_str ` set (x # xs)"
      using a(6,7) by auto
    moreover have "\<forall>f \<in> set fs. \<exists>i \<in> set (x # xs). \<exists>e. f = failed_str i e"
      using a(8) by auto
    ultimately show ?thesis using a(1-4) by blast
  next
    case reload
    let ?r1 = "r\<lparr>reloaded_items := reloaded_items r @ [ext_str x]\<rparr>"
    from Cons.prems u reload have "load_loop h xs ?r1 b1 = (r', b')" by simp
    from Cons.IH[OF this] obtain ls rs fs where
      a: "unloaded_items r' = unloaded_items r" "loaded_items r' = loaded_items r @ ls"
        "reloaded_items r' = reloaded_items r @ ext_str x # rs"
        "failed_items r' = failed_items r @ fs"
        "length ls + length rs + length fs = length xs"
        "set ls \<subseteq> ext_str ` set xs" "set rs \<subseteq> ext_str ` set xs"
        "\<forall>f \<in> set fs. \<exists>i \<in> set xs. \<exists>e. f = failed_str i e"
      by auto
    have "length ls + length (ext_str x # rs) + length fs = length (x # xs)" using a(5) by simp
    moreover have "set ls \<subseteq> ext_str ` set (x # xs)" "set (ext_str x # rs) \<subseteq> ext_str ` set (x # xs)"
      using a(6,7) by auto
    moreover have "\<forall>f \<in> set fs. \<exists>i \<in> set (x # xs). \<exists>e. f = failed_str i e"
      using a(8) by auto
    ultimately show ?thesis using a(1-4) by blast
  qed
qed

lemma load_loop_mono:
  assumes "load_loop h xs r b = (r', b')"
  shows "set (failed_items r) \<subseteq> set (failed_items r')"
    and "set (loaded_items r) \<subseteq> set (loaded_items r')"
    and "set (reloaded_items r) \<subseteq> set (reloaded_items r')"
  using load_loop_items[OF assms] by auto

lemma load_loop_outcome:
  "load_loop h xs r b = (r', b') \<Longrightarrow> i \<in> set xs \<Longrightarrow>
     ext_str i \<in> set (loaded_items r') \<union> set (reloaded_items r')
     \<or> (\<exists>e. failed_str i e \<in> set (failed_items r'))"
proof (induction xs arbitrary: r b)
  case Nil
  then show ?case by simp
next
  case (Cons x xs)
  obtain res b1 where u: "reload_or_load_extension h b x = (res, b1)"
    by (cases "reload_or_load_extension h b x")
  show ?case
  proof (cases "i = x")
    case True
    from u show ?thesis
    proof (cases rule: rol_state_cases)
      case (fail e)
      with Cons.prems u have
        "load_loop h xs (r\<lparr>failed_items := failed_items r @ [failed_str x e]\<rparr>) b1 = (r', b')"
        by simp
      from load_loop_mono(1)[OF this] True show ?thesis by auto
    next
      case load
      with Cons.prems u have
        "load_loop h xs (r\<lparr>loaded_items := loaded_items r @ [ext_str x]\<rparr>) b1 = (r', b')"
        by simp
      from load_loop_mono(2)[OF this] True show ?thesis by auto
    next
      case reload
      with Cons.prems u have
        "load_loop h xs (r\<lparr>reloaded_items := reloaded_items r @ [ext_str x]\<rparr>) b1 = (r', b')"
        by simp
      from load_loop_mono(3)[OF this] True show ?thesis by auto
    qed
  next
    case False
    with Cons.prems(2) have "i \<in> set xs" by simp
    moreover from Cons.prems(1) u obtain r1 where "load_loop h xs r1 b1 = (r', b')"
      by (cases res) (auto split: if_splits)
    ultimately show ?thesis using Cons.IH by blast
  qed
qed

lemma load_loop_active:
  "load_loop h xs r b = (r', b') \<Longrightarrow> i \<in> set xs \<Longrightarrow>
     \<forall>e. failed_str i e \<notin> set (failed_items r') \<Longrightarrow> i \<in> set (extensions b')"
proof (induction xs arbitrary: r b)
  case Nil
  then show ?case by simp
next
  case (Cons x xs)
  obtain res b1 where u: "reload_or_load_extension h b x = (res, b1)"
    by (cases "reload_or_load_extension h b x")
  from Cons.prems(1) u obtain r1 where l: "load_loop h xs r1 b1 = (r', b')"
    by (cases res) (auto split: if_splits)
  show ?case
  proof (cases "i \<in> set xs")
    case True
    from Cons.IH[OF l True Cons.prems(3)] show ?thesis .
  next
    case False
    with Cons.prems(2) have ix: "i = x" by simp
    from u show ?thesis
    proof (cases rule: rol_state_cases)
      case (fail e)
      with Cons.prems u have
        "load_loop h xs (r\<lparr>failed_items := failed_items r @ [failed_str x e]\<rparr>) b1 = (r', b')"
        by simp
      from load_loop_mono(1)[OF this] ix Cons.prems(3) show ?thesis by auto
    next
      case load
      with load_loop_other[OF l False] ix show ?thesis by simp
    next
      case reload
      with load_loop_other[OF l False] ix show ?thesis by simp
    qed
  qed
qed

text \<open>
  Each loop over a list in two parts is the loop over the second part, started where the
  loop over the first part ends.
\<close>

lemma unload_loop_append:
  "unload_loop h (ys @ zs) r b =
     (case unload_loop h ys r b of (r1, b1) \<Rightarrow> unload_loop h zs r1 b1)"
proof (induction ys arbitrary: r b)
  case Nil
  then show ?case by simp
next
  case (Cons y ys)
  obtain res b0 where u: "unload_extension h b y = (res, b0)" by (cases "unload_extension h b y")
  show ?case using u Cons.IH by (cases res) simp_all
qed

lemma load_loop_append:
  "load_loop h (ys @ zs) r b =
     (case load_loop h ys r b of (r1, b1) \<Rightarrow> load_loop h zs r1 b1)"
proof (induction ys arbitrary: r b)
  case Nil
  then show ?case by simp
next
  case (Cons y ys)
  obtain res b0 where u: "reload_or_load_extension h b y = (res, b0)"
    by (cases "reload_or_load_extension h b y")
  show ?case using u Cons.IH by (cases res) simp_all
qed

text \<open>
  An identifier that is active when the second loop starts and has no failed item when
  it ends is never filed as loaded, and is filed as reloaded when it is in the list.
\<close>

lemma load_loop_active_reloaded:
  "load_loop h xs r b = (r', b') \<Longrightarrow> i \<in> set (extensions b) \<Longrightarrow>
     \<forall>e. failed_str i e \<notin> set (failed_items r') \<Longrightarrow>
     (ext_str i \<in> set (loaded_items r') \<longrightarrow> ext_str i \<in> set (loaded_items r))
     \<and> (i \<in> set xs \<longrightarrow> ext_str i \<in> set (reloaded_items r'))"
proof (induction xs arbitrary: r b)
  case Nil
  then show ?case by simp
next
  case (Cons x xs)
  obtain res b1 where u: "reload_or_load_extension h b x = (res, b1)"
    by (cases "reload_or_load_extension h b x")
  have act: "i \<in> set (extensions b1)" if "res = Inr c" for c
  proof (cases "i = x")
    case True
    with rol_Inr[of h b x c b1] u that show ?thesis by simp
  next
    case False
    from rol_other[OF u False] Cons.prems(2) show ?thesis by simp
  qed
  from u show ?case
  proof (cases rule: rol_state_cases)
    case (fail e)
    let ?r1 = "r\<lparr>failed_items := failed_items r @ [failed_str x e]\<rparr>"
    from fail Cons.prems(1) u have l: "load_loop h xs ?r1 b1 = (r', b')" by simp
    from load_loop_mono(1)[OF l] Cons.prems(3) have ne: "i \<noteq> x" by auto
    from rol_other[OF u ne] Cons.prems(2) have "i \<in> set (extensions b1)" by simp
    from Cons.IH[OF l this Cons.prems(3)] ne show ?thesis by simp
  next
    case load
    let ?r1 = "r\<lparr>loaded_items := loaded_items r @ [ext_str x]\<rparr>"
    from load Cons.prems(1) u have l: "load_loop h xs ?r1 b1 = (r', b')" by simp
    from load Cons.prems(2) have ne: "i \<noteq> x" by auto
    from Cons.IH[OF l act[OF load(1)] Cons.prems(3)] ne show ?thesis
      by (simp add: ext_str_def)
  next
    case reload
    let ?r1 = "r\<lparr>reloaded_items := reloaded_items r @ [ext_str x]\<rparr>"
    from reload Cons.prems(1) u have l: "load_loop h xs ?r1 b1 = (r', b')" by simp
    from Cons.IH[OF l act[OF reload(1)] Cons.prems(3)] load_loop_mono(3)[OF l] show ?thesis
      by auto
  qed
qed

section \<open>Both loops together\<close>

lemma reload_all_lists_loops:
  assumes "reload_all_lists h b desired = (r, b')"
  obtains r0 b0 where "unload_loop h (future_unload b desired) no_items b = (r0, b0)"
    and "load_loop h desired r0 b0 = (r, b')"
  using assms unfolding reload_all_lists_def
  by (cases "unload_loop h (future_unload b desired) no_items b") auto

lemma set_future_unload: "set (future_unload b desired) = set (extensions b) - set desired"
  by (auto simp: future_unload_def)

text \<open>
  After both loops, an identifier none of whose operations failed is active if and only
  if it is in the list of available extensions.
\<close>

lemma reload_all_lists_membership:
  assumes "reload_all_lists h b desired = (r, b')"
    and "\<forall>e. failed_str i e \<notin> set (failed_items r)"
  shows "i \<in> set (extensions b') \<longleftrightarrow> i \<in> set desired"
proof -
  from assms(1) obtain r0 b0 where
    u: "unload_loop h (future_unload b desired) no_items b = (r0, b0)"
    and l: "load_loop h desired r0 b0 = (r, b')"
    by (rule reload_all_lists_loops)
  from load_loop_mono(1)[OF l] assms(2) have nf0: "\<forall>e. failed_str i e \<notin> set (failed_items r0)"
    by blast
  show ?thesis
  proof (cases "i \<in> set desired")
    case True
    with load_loop_active[OF l True assms(2)] show ?thesis by simp
  next
    case False
    have "i \<notin> set (extensions b0)"
    proof (cases "i \<in> set (extensions b)")
      case True
      with False have "i \<in> set (future_unload b desired)" by (simp add: set_future_unload)
      from unload_loop_outcome[OF u this] nf0 show ?thesis by blast
    next
      case False
      with unload_loop_subset[OF u] show ?thesis by blast
    qed
    with load_loop_other[OF l False] False show ?thesis by simp
  qed
qed

lemma reload_all_lists_outcomes:
  assumes "reload_all_lists h b desired = (r, b')"
  shows "\<forall>i \<in> set (future_unload b desired).
            ext_str i \<in> set (unloaded_items r) \<or> (\<exists>e. failed_str i e \<in> set (failed_items r))"
    and "\<forall>i \<in> set desired.
            ext_str i \<in> set (loaded_items r) \<union> set (reloaded_items r)
            \<or> (\<exists>e. failed_str i e \<in> set (failed_items r))"
    and "length (loaded_items r) + length (unloaded_items r) + length (reloaded_items r)
            + length (failed_items r) = length (future_unload b desired) + length desired"
    and "\<forall>f \<in> set (failed_items r). \<exists>i \<in> set (future_unload b desired) \<union> set desired.
            \<exists>e. f = failed_str i e"
proof -
  from assms obtain r0 b0 where
    u: "unload_loop h (future_unload b desired) no_items b = (r0, b0)"
    and l: "load_loop h desired r0 b0 = (r, b')"
    by (rule reload_all_lists_loops)
  from unload_loop_items[OF u] obtain us fs where
    a: "loaded_items r0 = []" "reloaded_items r0 = []" "unloaded_items r0 = us" "failed_items r0 = fs"
      "length us + length fs = length (future_unload b desired)"
      "\<forall>f \<in> set fs. \<exists>i \<in> set (future_unload b desired). \<exists>e. f = failed_str i e"
    by (auto simp: no_items_def)
  from load_loop_items[OF l] obtain ls rs gs where
    c: "unloaded_items r = unloaded_items r0" "loaded_items r = loaded_items r0 @ ls"
      "reloaded_items r = reloaded_items r0 @ rs" "failed_items r = failed_items r0 @ gs"
      "length ls + length rs + length gs = length desired"
      "\<forall>f \<in> set gs. \<exists>i \<in> set desired. \<exists>e. f = failed_str i e"
    by auto
  show "\<forall>i \<in> set (future_unload b desired).
          ext_str i \<in> set (unloaded_items r) \<or> (\<exists>e. failed_str i e \<in> set (failed_items r))"
  proof
    fix i assume "i \<in> set (future_unload b desired)"
    from unload_loop_outcome[OF u this] c(1) load_loop_mono(1)[OF l]
    show "ext_str i \<in> set (unloaded_items r) \<or> (\<exists>e. failed_str i e \<in> set (failed_items r))"
      by auto
  qed
  show "\<forall>i \<in> set desired.
          ext_str i \<in> set (loaded_items r) \<union> set (reloaded_items r)
          \<or> (\<exists>e. failed_str i e \<in> set (failed_items r))"
    using load_loop_outcome[OF l] by blast
  show "length (loaded_items r) + length (unloaded_items r) + length (reloaded_items r)
          + length (failed_items r) = length (future_unload b desired) + length desired"
    using a c by simp
  show "\<forall>f \<in> set (failed_items r). \<exists>i \<in> set (future_unload b desired) \<union> set desired.
          \<exists>e. f = failed_str i e"
  proof
    fix f assume "f \<in> set (failed_items r)"
    with a(4) c(4) have "f \<in> set fs \<or> f \<in> set gs" by auto
    with a(6) c(6) show "\<exists>i \<in> set (future_unload b desired) \<union> set desired. \<exists>e. f = failed_str i e"
      by blast
  qed
qed

text \<open>
  When every identifier of the list is active and the loop records no failure, every
  identifier is reloaded.
\<close>

lemma load_loop_reloaded:
  "load_loop h xs r b = (r', b') \<Longrightarrow> set xs \<subseteq> set (extensions b) \<Longrightarrow>
     failed_items r' = failed_items r \<Longrightarrow>
     loaded_items r' = loaded_items r \<and> reloaded_items r' = reloaded_items r @ map ext_str xs"
proof (induction xs arbitrary: r b)
  case Nil
  then show ?case by simp
next
  case (Cons x xs)
  obtain res b1 where u: "reload_or_load_extension h b x = (res, b1)"
    by (cases "reload_or_load_extension h b x")
  from Cons.prems(2) have x: "x \<in> set (extensions b)" and xs: "set xs \<subseteq> set (extensions b)"
    by auto
  from u show ?case
  proof (cases rule: rol_state_cases)
    case (fail e)
    with Cons.prems(1) u have
      "load_loop h xs (r\<lparr>failed_items := failed_items r @ [failed_str x e]\<rparr>) b1 = (r', b')"
      by simp
    from load_loop_items[OF this] Cons.prems(3) show ?thesis by auto
  next
    case load
    with x show ?thesis by simp
  next
    case reload
    let ?r1 = "r\<lparr>reloaded_items := reloaded_items r @ [ext_str x]\<rparr>"
    from reload Cons.prems(1) u have l: "load_loop h xs ?r1 b1 = (r', b')" by simp
    have "set xs \<subseteq> set (extensions b1)"
    proof
      fix i assume i: "i \<in> set xs"
      show "i \<in> set (extensions b1)"
      proof (cases "i = x")
        case True
        with reload show ?thesis by simp
      next
        case False
        from rol_other[OF u False] i xs show ?thesis by blast
      qed
    qed
    moreover from Cons.prems(3) have "failed_items r' = failed_items ?r1" by simp
    ultimately show ?thesis using Cons.IH[OF l] by simp
  qed
qed

lemma init_loop_result:
  "init_loop h xs b = (res, b1) \<Longrightarrow>
     (res = Inr () \<and> extensions b1 = extensions b @ xs)
     \<or> (\<exists>e ys x zs bm. res = Inl e \<and> xs = ys @ x # zs \<and> extensions b1 = extensions b @ ys
           \<and> load_extension h bm x = (Inl e, b1))"
proof (induction xs arbitrary: b)
  case Nil
  then show ?case by simp
next
  case (Cons x xs)
  obtain r0 b0 where u: "load_extension h b x = (r0, b0)" by (cases "load_extension h b x")
  show ?case
  proof (cases r0)
    case (Inl e)
    with Cons.prems u have "res = Inl e" "b1 = b0" by simp_all
    moreover from u Inl have "extensions b0 = extensions b" by (auto dest: load_extension_Inl)
    ultimately have "res = Inl e \<and> x # xs = [] @ x # xs \<and> extensions b1 = extensions b @ []
        \<and> load_extension h b x = (Inl e, b1)"
      using u Inl by simp
    then show ?thesis by blast
  next
    case (Inr v)
    with u have e0: "extensions b0 = extensions b @ [x]"
      by (auto elim: load_extension_cases)
    from Inr Cons.prems u have "init_loop h xs b0 = (res, b1)" by simp
    from Cons.IH[OF this] show ?thesis
    proof
      assume "res = Inr () \<and> extensions b1 = extensions b0 @ xs"
      with e0 show ?thesis by simp
    next
      assume "\<exists>e ys y zs bm. res = Inl e \<and> xs = ys @ y # zs \<and> extensions b1 = extensions b0 @ ys
          \<and> load_extension h bm y = (Inl e, b1)"
      then obtain e ys y zs bm where "res = Inl e" "xs = ys @ y # zs"
        "extensions b1 = extensions b0 @ ys" "load_extension h bm y = (Inl e, b1)"
        by blast
      with e0 have "res = Inl e \<and> x # xs = (x # ys) @ y # zs
          \<and> extensions b1 = extensions b @ (x # ys) \<and> load_extension h bm y = (Inl e, b1)"
        by simp
      then show ?thesis by blast
    qed
  qed
qed

lemma inj_ext_str: "ext_str i = ext_str j \<longleftrightarrow> i = j"
  by (simp add: ext_str_def)

lemma description_failed:
  "fa \<noteq> [] \<Longrightarrow>
   \<exists>pre. description (create_cogs_embed c lo un (Some re) (Some fa))
     = pre @ emoji_x c @ '' **Failed - ['' @ str_nat (length fa) @ '']**\<newline>'' @ join ''\<newline>'' fa"
  unfolding create_cogs_embed_def Let_def by simp

lemma reload_all_lists_unload_failure:
  assumes pass: "reload_all_lists h b desired = (r, b')"
    and split: "future_unload b desired = ys @ x # zs"
    and before: "unload_loop h ys no_items b = (r1, b1)"
    and raised: "unload_extension h b1 x = (Inl e, b2)"
  shows "failed_str x e \<in> set (failed_items r)
       \<and> (\<exists>r0 b0. unload_loop h zs (r1\<lparr>failed_items := failed_items r1 @ [failed_str x e]\<rparr>) b2 = (r0, b0)
              \<and> load_loop h desired r0 b0 = (r, b'))"
proof -
  from pass obtain r0 b0 where
    u: "unload_loop h (future_unload b desired) no_items b = (r0, b0)"
    and l: "load_loop h desired r0 b0 = (r, b')"
    by (rule reload_all_lists_loops)
  let ?r2 = "r1\<lparr>failed_items := failed_items r1 @ [failed_str x e]\<rparr>"
  from u split before raised have rest: "unload_loop h zs ?r2 b2 = (r0, b0)"
    by (simp add: unload_loop_append)
  from unload_loop_failed_mono[OF rest] load_loop_mono(1)[OF l]
  have "failed_str x e \<in> set (failed_items r)" by auto
  with rest l show ?thesis by blast
qed

lemma reload_all_lists_load_failure:
  assumes pass: "reload_all_lists h b desired = (r, b')"
    and unl: "unload_loop h (future_unload b desired) no_items b = (r0, b0)"
    and split: "desired = ys @ x # zs"
    and before: "load_loop h ys r0 b0 = (r1, b1)"
    and raised: "reload_or_load_extension h b1 x = (Inl e, b2)"
  shows "failed_str x e \<in> set (failed_items r)
       \<and> load_loop h zs (r1\<lparr>failed_items := failed_items r1 @ [failed_str x e]\<rparr>) b2 = (r, b')"
proof -
  let ?r2 = "r1\<lparr>failed_items := failed_items r1 @ [failed_str x e]\<rparr>"
  from pass unl have "load_loop h desired r0 b0 = (r, b')"
    by (simp add: reload_all_lists_def)
  with split before raised have rest: "load_loop h zs ?r2 b2 = (r, b')"
    by (simp add: load_loop_append)
  from load_loop_mono(1)[OF rest] have "failed_str x e \<in> set (failed_items r)" by auto
  with rest show ?thesis by blast
qed

lemma example_pass:
  "reload_all_lists example_host example_bot example_desired = (example_lists, example_bot_after)"
  by code_simp

lemma example_second_pass:
  "reload_all_lists example_host example_bot_after example_desired
     = (example_lists_again, example_bot_after)"
  by code_simp

section \<open>The claims about the lifecycle\<close>

text \<open>
  Claim C1. In a pass of \<^verbatim>\<open>reload all\<close> over the list \<open>desired\<close>, the unload set the code
  computes is the set of active identifiers minus the desired ones; and when the pass is
  over, every identifier that has no item in the failed list is active if and only if
  it is in \<open>desired\<close>.
\<close>

theorem reconcile_sets:
  assumes "reload_all_lists h b desired = (r, b')"
  shows "set (future_unload b desired) = set (extensions b) - set desired
       \<and> (\<forall>i. (\<forall>e. failed_str i e \<notin> set (failed_items r))
              \<longrightarrow> (i \<in> set (extensions b') \<longleftrightarrow> i \<in> set desired))"
  using reload_all_lists_membership[OF assms] by (simp add: set_future_unload)

theorem reconcile_sets_witness:
  "reload_all_lists example_host example_bot example_desired = (example_lists, example_bot_after)
   \<and> set (future_unload example_bot example_desired) = set (extensions example_bot) - set example_desired
   \<and> (\<forall>e. failed_str ''cogs.gone'' e \<notin> set (failed_items example_lists))
   \<and> ''cogs.gone'' \<notin> set (extensions example_bot_after) \<and> ''cogs.gone'' \<notin> set example_desired
   \<and> (\<forall>e. failed_str ''cogs.admin'' e \<notin> set (failed_items example_lists))
   \<and> ''cogs.admin'' \<in> set (extensions example_bot_after) \<and> ''cogs.admin'' \<in> set example_desired"
proof -
  have p: "reload_all_lists example_host example_bot example_desired = (example_lists, example_bot_after)"
    by (rule example_pass)
  have g: "\<forall>e. failed_str ''cogs.gone'' e \<notin> set (failed_items example_lists)"
    by (simp add: failed_str_def example_lists_def)
  have a: "\<forall>e. failed_str ''cogs.admin'' e \<notin> set (failed_items example_lists)"
    by (simp add: failed_str_def example_lists_def)
  have d: "''cogs.gone'' \<notin> set example_desired" "''cogs.admin'' \<in> set example_desired"
    by (simp_all add: example_desired_def)
  from reconcile_sets[OF p] p g a d show ?thesis by blast
qed

text \<open>
  Claim C2, as amended. \<^verbatim>\<open>reload_or_load_extension\<close> on an identifier that is not active
  returns \<open>loaded\<close> with the identifier active afterwards, unless the setup raises; on an
  active identifier it returns \<open>reloaded\<close> with the identifier active afterwards, unless
  the teardown or the setup after it raises. When one of them raises, the call raises
  that error and returns no category. A returned category is \<open>reloaded\<close> exactly when the
  identifier was active, so one call never gives both.
\<close>

theorem reload_or_load_category:
  assumes "reload_or_load_extension h b i = (res, b')"
  shows "(\<forall>c. res = Inr c \<longrightarrow>
            c = (if i \<in> set (extensions b) then reloaded else loaded) \<and> i \<in> set (extensions b'))
       \<and> (i \<notin> set (extensions b) \<longrightarrow>
            (fst (instantiate h (world b) i) = None \<longrightarrow>
               res = Inr loaded \<and> i \<in> set (extensions b'))
          \<and> (\<forall>m. fst (instantiate h (world b) i) = Some m \<longrightarrow> res = Inl (LoadError m)))
       \<and> (i \<in> set (extensions b) \<longrightarrow>
            (\<forall>w. teardown h (world b) i = (None, w) \<and> fst (instantiate h w i) = None \<longrightarrow>
               res = Inr reloaded \<and> i \<in> set (extensions b'))
          \<and> (\<forall>m w. teardown h (world b) i = (Some m, w) \<longrightarrow> res = Inl (UnloadError m))
          \<and> (\<forall>w m. teardown h (world b) i = (None, w) \<and> fst (instantiate h w i) = Some m \<longrightarrow>
               res = Inl (LoadError m)))"
proof -
  have ret: "\<forall>c. res = Inr c \<longrightarrow>
      c = (if i \<in> set (extensions b) then reloaded else loaded) \<and> i \<in> set (extensions b')"
    using rol_Inr[of h b i _ b'] assms by blast
  have inactive: "i \<notin> set (extensions b) \<longrightarrow>
            (fst (instantiate h (world b) i) = None \<longrightarrow>
               res = Inr loaded \<and> i \<in> set (extensions b'))
          \<and> (\<forall>m. fst (instantiate h (world b) i) = Some m \<longrightarrow> res = Inl (LoadError m))"
    using assms
    by (auto simp: reload_or_load_extension_def load_extension_def
        split: prod.splits option.splits)
  have active: "i \<in> set (extensions b) \<longrightarrow>
            (\<forall>w. teardown h (world b) i = (None, w) \<and> fst (instantiate h w i) = None \<longrightarrow>
               res = Inr reloaded \<and> i \<in> set (extensions b'))
          \<and> (\<forall>m w. teardown h (world b) i = (Some m, w) \<longrightarrow> res = Inl (UnloadError m))
          \<and> (\<forall>w m. teardown h (world b) i = (None, w) \<and> fst (instantiate h w i) = Some m \<longrightarrow>
               res = Inl (LoadError m))"
    using assms
    by (auto simp: reload_or_load_extension_def reload_extension_def load_extension_def
        unload_extension_def split: prod.splits option.splits)
  from ret inactive active show ?thesis by blast
qed

theorem reload_or_load_category_witness:
  "reload_or_load_extension example_host example_bot ''cogs.new''
     = (Inr loaded, \<lparr>extensions = [''cogs.admin'', ''cogs.gone'', ''cogs.old'', ''cogs.new''], world = ()\<rparr>)
   \<and> ''cogs.new'' \<notin> set (extensions example_bot)
   \<and> fst (instantiate example_host (world example_bot) ''cogs.new'') = None
   \<and> ''cogs.new'' \<in> set [''cogs.admin'', ''cogs.gone'', ''cogs.old'', ''cogs.new'']
   \<and> reload_or_load_extension example_host example_bot ''cogs.admin''
     = (Inr reloaded, \<lparr>extensions = [''cogs.gone'', ''cogs.old'', ''cogs.admin''], world = ()\<rparr>)
   \<and> ''cogs.admin'' \<in> set (extensions example_bot)
   \<and> teardown example_host (world example_bot) ''cogs.admin'' = (None, ())
   \<and> fst (instantiate example_host () ''cogs.admin'') = None
   \<and> ''cogs.admin'' \<in> set [''cogs.gone'', ''cogs.old'', ''cogs.admin'']
   \<and> ''cogs.error'' \<notin> set (extensions example_bot)
   \<and> fst (instantiate example_host (world example_bot) ''cogs.error'') = Some ''boom''
   \<and> fst (reload_or_load_extension example_host example_bot ''cogs.error'') = Inl (LoadError ''boom'')
   \<and> ''cogs.old'' \<in> set (extensions example_bot)
   \<and> teardown example_host (world example_bot) ''cogs.old'' = (Some ''stuck'', ())
   \<and> fst (reload_or_load_extension example_host example_bot ''cogs.old'') = Inl (UnloadError ''stuck'')
   \<and> ''cogs.error'' \<in> set (extensions \<lparr>extensions = [''cogs.error''], world = ()\<rparr>)
   \<and> teardown example_host (world \<lparr>extensions = [''cogs.error''], world = ()\<rparr>) ''cogs.error'' = (None, ())
   \<and> fst (instantiate example_host () ''cogs.error'') = Some ''boom''
   \<and> fst (reload_or_load_extension example_host \<lparr>extensions = [''cogs.error''], world = ()\<rparr> ''cogs.error'')
       = Inl (LoadError ''boom'')"
proof -
  have new: "reload_or_load_extension example_host example_bot ''cogs.new''
     = (Inr loaded, \<lparr>extensions = [''cogs.admin'', ''cogs.gone'', ''cogs.old'', ''cogs.new''], world = ()\<rparr>)"
    by code_simp
  have admin: "reload_or_load_extension example_host example_bot ''cogs.admin''
     = (Inr reloaded, \<lparr>extensions = [''cogs.gone'', ''cogs.old'', ''cogs.admin''], world = ()\<rparr>)"
    by code_simp
  have mem: "''cogs.new'' \<notin> set (extensions example_bot)"
    "''cogs.admin'' \<in> set (extensions example_bot)"
    "''cogs.error'' \<notin> set (extensions example_bot)"
    "''cogs.old'' \<in> set (extensions example_bot)"
    "''cogs.error'' \<in> set (extensions \<lparr>extensions = [''cogs.error''], world = ()\<rparr>)"
    by (simp_all add: example_bot_def)
  have host: "fst (instantiate example_host (world example_bot) ''cogs.new'') = None"
    "teardown example_host (world example_bot) ''cogs.admin'' = (None, ())"
    "fst (instantiate example_host () ''cogs.admin'') = None"
    "fst (instantiate example_host (world example_bot) ''cogs.error'') = Some ''boom''"
    "teardown example_host (world example_bot) ''cogs.old'' = (Some ''stuck'', ())"
    "teardown example_host (world \<lparr>extensions = [''cogs.error''], world = ()\<rparr>) ''cogs.error'' = (None, ())"
    "fst (instantiate example_host () ''cogs.error'') = Some ''boom''"
    by (simp_all add: example_host_def)
  obtain r1 b1 where e1: "reload_or_load_extension example_host example_bot ''cogs.error'' = (r1, b1)"
    by (cases "reload_or_load_extension example_host example_bot ''cogs.error''")
  obtain r2 b2 where e2: "reload_or_load_extension example_host example_bot ''cogs.old'' = (r2, b2)"
    by (cases "reload_or_load_extension example_host example_bot ''cogs.old''")
  obtain r3 b3 where e3: "reload_or_load_extension example_host
      \<lparr>extensions = [''cogs.error''], world = ()\<rparr> ''cogs.error'' = (r3, b3)"
    by (cases "reload_or_load_extension example_host \<lparr>extensions = [''cogs.error''], world = ()\<rparr> ''cogs.error''")
  from reload_or_load_category[OF e1] mem(3) host(4) have "r1 = Inl (LoadError ''boom'')" by blast
  with e1 have g1: "fst (reload_or_load_extension example_host example_bot ''cogs.error'')
      = Inl (LoadError ''boom'')" by simp
  from reload_or_load_category[OF e2] mem(4) host(5) have "r2 = Inl (UnloadError ''stuck'')" by blast
  with e2 have g2: "fst (reload_or_load_extension example_host example_bot ''cogs.old'')
      = Inl (UnloadError ''stuck'')" by simp
  from reload_or_load_category[OF e3] mem(5) host(6,7) have "r3 = Inl (LoadError ''boom'')" by blast
  with e3 have g3: "fst (reload_or_load_extension example_host
      \<lparr>extensions = [''cogs.error''], world = ()\<rparr> ''cogs.error'') = Inl (LoadError ''boom'')" by simp
  from reload_or_load_category[OF new] reload_or_load_category[OF admin]
    new admin mem host g1 g2 g3
  show ?thesis by simp
qed

text \<open>
  Claim C2 as stated fails: \<open>cogs.error\<close> is not active and its setup raises, so the
  call raises, returns no category, and leaves the identifier inactive.
\<close>

theorem reload_or_load_raises_counterexample:
  "''cogs.error'' \<notin> set (extensions fresh_bot)
   \<and> reload_or_load_extension example_host fresh_bot ''cogs.error''
       = (Inl (LoadError ''boom''), fresh_bot)"
  by code_simp

text \<open>
  Claim C3. When the unload step of a reload succeeds and the load step after it fails,
  the identifier was active before and is not active afterwards, and the failure is the
  outcome: \<^verbatim>\<open>reload_extension\<close> raises the load error, the command \<^verbatim>\<open>reload\<close> replies
  with the failure text, \<^verbatim>\<open>reload_or_load_extension\<close> raises it, and the loop of
  \<^verbatim>\<open>_reload_all\<close> puts the identifier in the failed list.
\<close>

theorem reload_no_rollback:
  assumes "unload_extension h b i = (Inr u, b1)" and "load_extension h b1 i = (Inl e, b2)"
  shows "i \<in> set (extensions b) \<and> i \<notin> set (extensions b2)
       \<and> reload_extension h b i = (Inl e, b2)
       \<and> reload h b i
           = (''**Failed reloading `'' @ i @ ''`!**\<newline>```'' @ class_name e @ '': '' @ message e @ ''```'', b2)
       \<and> reload_or_load_extension h b i = (Inl e, b2)
       \<and> load_loop h [i] r b = (r\<lparr>failed_items := failed_items r @ [failed_str i e]\<rparr>, b2)"
proof -
  from assms(1) have act: "i \<in> set (extensions b)" and gone: "i \<notin> set (extensions b1)"
    by (auto dest: unload_extension_Inr)
  from assms(2) have "extensions b2 = extensions b1"
    by (rule load_extension_Inl)
  with gone have absent: "i \<notin> set (extensions b2)" by simp
  from assms have re: "reload_extension h b i = (Inl e, b2)"
    by (simp add: reload_extension_def)
  then have cmd: "reload h b i
      = (''**Failed reloading `'' @ i @ ''`!**\<newline>```'' @ class_name e @ '': '' @ message e @ ''```'', b2)"
    by (simp add: reload_def)
  from act have "load_extension h b i = (Inl (ExtensionAlreadyLoaded i), b)"
    by (simp add: load_extension_def)
  with re have rol: "reload_or_load_extension h b i = (Inl e, b2)"
    by (simp add: reload_or_load_extension_def)
  then have "load_loop h [i] r b = (r\<lparr>failed_items := failed_items r @ [failed_str i e]\<rparr>, b2)"
    by simp
  with act absent re cmd rol show ?thesis by blast
qed

theorem reload_no_rollback_witness:
  "unload_extension example_host \<lparr>extensions = [''cogs.error''], world = ()\<rparr> ''cogs.error''
     = (Inr (), fresh_bot)
   \<and> load_extension example_host fresh_bot ''cogs.error'' = (Inl (LoadError ''boom''), fresh_bot)
   \<and> ''cogs.error'' \<notin> set (extensions fresh_bot)
   \<and> reload_extension example_host \<lparr>extensions = [''cogs.error''], world = ()\<rparr> ''cogs.error''
     = (Inl (LoadError ''boom''), fresh_bot)
   \<and> reload example_host \<lparr>extensions = [''cogs.error''], world = ()\<rparr> ''cogs.error''
     = (''**Failed reloading `cogs.error`!**\<newline>```LoadError: boom```'', fresh_bot)
   \<and> reload_or_load_extension example_host \<lparr>extensions = [''cogs.error''], world = ()\<rparr> ''cogs.error''
     = (Inl (LoadError ''boom''), fresh_bot)
   \<and> load_loop example_host [''cogs.error''] no_items \<lparr>extensions = [''cogs.error''], world = ()\<rparr>
     = (no_items\<lparr>failed_items := [''`cogs.error`: `LoadError`'']\<rparr>, fresh_bot)"
proof -
  have u: "unload_extension example_host \<lparr>extensions = [''cogs.error''], world = ()\<rparr> ''cogs.error''
     = (Inr (), fresh_bot)"
    by (simp add: unload_extension_def example_host_def fresh_bot_def)
  have l: "load_extension example_host fresh_bot ''cogs.error'' = (Inl (LoadError ''boom''), fresh_bot)"
    by (simp add: load_extension_def example_host_def fresh_bot_def)
  from reload_no_rollback[OF u l, of no_items] u l show ?thesis
    by (simp add: failed_str_def no_items_def)
qed

text \<open>
  Claim C4, as amended. In a pass of \<^verbatim>\<open>reload all\<close>, when the operation on an identifier
  raises, in either loop and wherever the identifier stands in its list, the error is
  filed as a failed item for that identifier and the pass goes on with the identifiers
  after it: the result of the pass is the result of running the rest of the loop from
  there. Every identifier of the unload set ends in the unloaded or in the failed list
  and every desired identifier in the loaded, the reloaded or the failed list; the four
  lists together have one item for each position of the two lists; and the command
  replies with its report. At startup it is different: \<^verbatim>\<open>init_extensions\<close> raises the
  first load error again, so the loop either loads every extension or stops at the first
  one that fails, with only the ones before it loaded.
\<close>

theorem batch_never_aborts:
  assumes "reload_all_lists h b desired = (r, b')"
  shows "(\<forall>ys x zs r1 b1 e b2.
            future_unload b desired = ys @ x # zs \<and> unload_loop h ys no_items b = (r1, b1)
            \<and> unload_extension h b1 x = (Inl e, b2) \<longrightarrow>
            failed_str x e \<in> set (failed_items r)
            \<and> (\<exists>r0 b0. unload_loop h zs (r1\<lparr>failed_items := failed_items r1 @ [failed_str x e]\<rparr>) b2
                         = (r0, b0)
                   \<and> load_loop h desired r0 b0 = (r, b')))
       \<and> (\<forall>r0 b0 ys x zs r1 b1 e b2.
            unload_loop h (future_unload b desired) no_items b = (r0, b0)
            \<and> desired = ys @ x # zs \<and> load_loop h ys r0 b0 = (r1, b1)
            \<and> reload_or_load_extension h b1 x = (Inl e, b2) \<longrightarrow>
            failed_str x e \<in> set (failed_items r)
            \<and> load_loop h zs (r1\<lparr>failed_items := failed_items r1 @ [failed_str x e]\<rparr>) b2 = (r, b'))
       \<and> (\<forall>i \<in> set (future_unload b desired).
            ext_str i \<in> set (unloaded_items r) \<or> (\<exists>e. failed_str i e \<in> set (failed_items r)))
       \<and> (\<forall>i \<in> set desired.
            ext_str i \<in> set (loaded_items r) \<union> set (reloaded_items r)
            \<or> (\<exists>e. failed_str i e \<in> set (failed_items r)))
       \<and> length (loaded_items r) + length (unloaded_items r) + length (reloaded_items r)
            + length (failed_items r) = length (future_unload b desired) + length desired
       \<and> (get_allowed_extensions fs = Inr desired \<longrightarrow>
            (\<exists>report. reload_all c h fs b = (Inr report, b')))
       \<and> (\<forall>res b1. init_loop h xs b = (res, b1) \<longrightarrow>
            (res = Inr () \<and> extensions b1 = extensions b @ xs)
            \<or> (\<exists>e ys x zs bm. res = Inl e \<and> xs = ys @ x # zs \<and> extensions b1 = extensions b @ ys
                  \<and> load_extension h bm x = (Inl e, b1)))"
proof -
  have un: "\<forall>ys x zs r1 b1 e b2.
            future_unload b desired = ys @ x # zs \<and> unload_loop h ys no_items b = (r1, b1)
            \<and> unload_extension h b1 x = (Inl e, b2) \<longrightarrow>
            failed_str x e \<in> set (failed_items r)
            \<and> (\<exists>r0 b0. unload_loop h zs (r1\<lparr>failed_items := failed_items r1 @ [failed_str x e]\<rparr>) b2
                         = (r0, b0)
                   \<and> load_loop h desired r0 b0 = (r, b'))"
    using reload_all_lists_unload_failure[OF assms] by blast
  have lo: "\<forall>r0 b0 ys x zs r1 b1 e b2.
            unload_loop h (future_unload b desired) no_items b = (r0, b0)
            \<and> desired = ys @ x # zs \<and> load_loop h ys r0 b0 = (r1, b1)
            \<and> reload_or_load_extension h b1 x = (Inl e, b2) \<longrightarrow>
            failed_str x e \<in> set (failed_items r)
            \<and> load_loop h zs (r1\<lparr>failed_items := failed_items r1 @ [failed_str x e]\<rparr>) b2 = (r, b')"
    using reload_all_lists_load_failure[OF assms] by blast
  have cmd: "get_allowed_extensions fs = Inr desired \<longrightarrow>
          (\<exists>report. reload_all c h fs b = (Inr report, b'))"
    using assms by (simp add: reload_all_def)
  have init: "\<forall>res b1. init_loop h xs b = (res, b1) \<longrightarrow>
            (res = Inr () \<and> extensions b1 = extensions b @ xs)
            \<or> (\<exists>e ys x zs bm. res = Inl e \<and> xs = ys @ x # zs \<and> extensions b1 = extensions b @ ys
                  \<and> load_extension h bm x = (Inl e, b1))"
    using init_loop_result by blast
  from un lo cmd init reload_all_lists_outcomes(1-3)[OF assms] show ?thesis
    by (intro conjI)
qed

theorem batch_never_aborts_witness:
  "reload_all_lists example_host example_bot example_desired = (example_lists, example_bot_after)
   \<and> future_unload example_bot example_desired = [''cogs.gone''] @ ''cogs.old'' # []
   \<and> unload_loop example_host [''cogs.gone''] no_items example_bot
       = (no_items\<lparr>unloaded_items := [''`cogs.gone`'']\<rparr>,
          \<lparr>extensions = [''cogs.admin'', ''cogs.old''], world = ()\<rparr>)
   \<and> unload_extension example_host \<lparr>extensions = [''cogs.admin'', ''cogs.old''], world = ()\<rparr> ''cogs.old''
       = (Inl (UnloadError ''stuck''), \<lparr>extensions = [''cogs.admin'', ''cogs.old''], world = ()\<rparr>)
   \<and> failed_str ''cogs.old'' (UnloadError ''stuck'') \<in> set (failed_items example_lists)
   \<and> unload_loop example_host (future_unload example_bot example_desired) no_items example_bot
       = (no_items\<lparr>unloaded_items := [''`cogs.gone`''], failed_items := [''`cogs.old`: `UnloadError`'']\<rparr>,
          \<lparr>extensions = [''cogs.admin'', ''cogs.old''], world = ()\<rparr>)
   \<and> example_desired = [''cogs.admin''] @ ''cogs.error'' # [''cogs.minigames.tictactoe'']
   \<and> load_loop example_host [''cogs.admin'']
         (no_items\<lparr>unloaded_items := [''`cogs.gone`''], failed_items := [''`cogs.old`: `UnloadError`'']\<rparr>)
         \<lparr>extensions = [''cogs.admin'', ''cogs.old''], world = ()\<rparr>
       = (\<lparr>loaded_items = [], unloaded_items = [''`cogs.gone`''], reloaded_items = [''`cogs.admin`''],
            failed_items = [''`cogs.old`: `UnloadError`'']\<rparr>,
          \<lparr>extensions = [''cogs.old'', ''cogs.admin''], world = ()\<rparr>)
   \<and> reload_or_load_extension example_host \<lparr>extensions = [''cogs.old'', ''cogs.admin''], world = ()\<rparr> ''cogs.error''
       = (Inl (LoadError ''boom''), \<lparr>extensions = [''cogs.old'', ''cogs.admin''], world = ()\<rparr>)
   \<and> failed_str ''cogs.error'' (LoadError ''boom'') \<in> set (failed_items example_lists)
   \<and> load_loop example_host [''cogs.minigames.tictactoe'']
         \<lparr>loaded_items = [], unloaded_items = [''`cogs.gone`''], reloaded_items = [''`cogs.admin`''],
            failed_items = [''`cogs.old`: `UnloadError`''] @ [failed_str ''cogs.error'' (LoadError ''boom'')]\<rparr>
         \<lparr>extensions = [''cogs.old'', ''cogs.admin''], world = ()\<rparr>
       = (example_lists, example_bot_after)
   \<and> ''cogs.old'' \<in> set (future_unload example_bot example_desired)
   \<and> ''cogs.minigames.tictactoe'' \<in> set example_desired
   \<and> ext_str ''cogs.minigames.tictactoe'' \<in> set (loaded_items example_lists)
   \<and> length (loaded_items example_lists) + length (unloaded_items example_lists)
       + length (reloaded_items example_lists) + length (failed_items example_lists)
       = length (future_unload example_bot example_desired) + length example_desired
   \<and> get_allowed_extensions example_fs = Inr example_desired
   \<and> (\<exists>report. reload_all example_common example_host example_fs example_bot
         = (Inr report, example_bot_after))
   \<and> init_loop example_host example_desired fresh_bot
       = (Inl (LoadError ''boom''), \<lparr>extensions = [''cogs.admin''], world = ()\<rparr>)
   \<and> load_extension example_host \<lparr>extensions = [''cogs.admin''], world = ()\<rparr> ''cogs.error''
       = (Inl (LoadError ''boom''), \<lparr>extensions = [''cogs.admin''], world = ()\<rparr>)"
proof -
  have p: "reload_all_lists example_host example_bot example_desired = (example_lists, example_bot_after)"
    by (rule example_pass)
  have s1: "future_unload example_bot example_desired = [''cogs.gone''] @ ''cogs.old'' # []"
    by code_simp
  have u1: "unload_loop example_host [''cogs.gone''] no_items example_bot
       = (no_items\<lparr>unloaded_items := [''`cogs.gone`'']\<rparr>,
          \<lparr>extensions = [''cogs.admin'', ''cogs.old''], world = ()\<rparr>)"
    by code_simp
  have u2: "unload_extension example_host \<lparr>extensions = [''cogs.admin'', ''cogs.old''], world = ()\<rparr> ''cogs.old''
       = (Inl (UnloadError ''stuck''), \<lparr>extensions = [''cogs.admin'', ''cogs.old''], world = ()\<rparr>)"
    by code_simp
  have u3: "unload_loop example_host (future_unload example_bot example_desired) no_items example_bot
       = (no_items\<lparr>unloaded_items := [''`cogs.gone`''], failed_items := [''`cogs.old`: `UnloadError`'']\<rparr>,
          \<lparr>extensions = [''cogs.admin'', ''cogs.old''], world = ()\<rparr>)"
    by code_simp
  have s2: "example_desired = [''cogs.admin''] @ ''cogs.error'' # [''cogs.minigames.tictactoe'']"
    by (simp add: example_desired_def)
  have l1: "load_loop example_host [''cogs.admin'']
         (no_items\<lparr>unloaded_items := [''`cogs.gone`''], failed_items := [''`cogs.old`: `UnloadError`'']\<rparr>)
         \<lparr>extensions = [''cogs.admin'', ''cogs.old''], world = ()\<rparr>
       = (\<lparr>loaded_items = [], unloaded_items = [''`cogs.gone`''], reloaded_items = [''`cogs.admin`''],
            failed_items = [''`cogs.old`: `UnloadError`'']\<rparr>,
          \<lparr>extensions = [''cogs.old'', ''cogs.admin''], world = ()\<rparr>)"
    by code_simp
  have l2: "reload_or_load_extension example_host \<lparr>extensions = [''cogs.old'', ''cogs.admin''], world = ()\<rparr> ''cogs.error''
       = (Inl (LoadError ''boom''), \<lparr>extensions = [''cogs.old'', ''cogs.admin''], world = ()\<rparr>)"
    by code_simp
  have a: "get_allowed_extensions example_fs = Inr example_desired"
    by code_simp
  have i: "init_loop example_host example_desired fresh_bot
       = (Inl (LoadError ''boom''), \<lparr>extensions = [''cogs.admin''], world = ()\<rparr>)"
    by code_simp
  have c: "''cogs.old'' \<in> set (future_unload example_bot example_desired)"
    "''cogs.minigames.tictactoe'' \<in> set example_desired"
    "ext_str ''cogs.minigames.tictactoe'' \<in> set (loaded_items example_lists)"
    "load_extension example_host \<lparr>extensions = [''cogs.admin''], world = ()\<rparr> ''cogs.error''
       = (Inl (LoadError ''boom''), \<lparr>extensions = [''cogs.admin''], world = ()\<rparr>)"
    by code_simp+
  note t = batch_never_aborts[OF p, of example_fs example_common example_desired]
  from t s1 u1 u2 have g1: "failed_str ''cogs.old'' (UnloadError ''stuck'') \<in> set (failed_items example_lists)"
    by blast
  from t u3 s2 l1 l2 have g2: "failed_str ''cogs.error'' (LoadError ''boom'') \<in> set (failed_items example_lists)
      \<and> load_loop example_host [''cogs.minigames.tictactoe'']
         (\<lparr>loaded_items = [], unloaded_items = [''`cogs.gone`''], reloaded_items = [''`cogs.admin`''],
            failed_items = [''`cogs.old`: `UnloadError`'']\<rparr>
          \<lparr>failed_items := failed_items \<lparr>loaded_items = [], unloaded_items = [''`cogs.gone`''],
              reloaded_items = [''`cogs.admin`''], failed_items = [''`cogs.old`: `UnloadError`'']\<rparr>
            @ [failed_str ''cogs.error'' (LoadError ''boom'')]\<rparr>)
         \<lparr>extensions = [''cogs.old'', ''cogs.admin''], world = ()\<rparr>
       = (example_lists, example_bot_after)"
    by blast
  from t have g3: "length (loaded_items example_lists) + length (unloaded_items example_lists)
       + length (reloaded_items example_lists) + length (failed_items example_lists)
       = length (future_unload example_bot example_desired) + length example_desired"
    by blast
  from t a have g4: "\<exists>report. reload_all example_common example_host example_fs example_bot
         = (Inr report, example_bot_after)"
    by blast
  from p s1 u1 u2 u3 s2 l1 l2 a i c g1 g2 g3 g4 show ?thesis by simp
qed

text \<open>
  Claim C4 as stated fails for the pass at startup: the setup of \<open>cogs.error\<close> raises,
  \<^verbatim>\<open>init_extensions\<close> raises with it, and \<open>cogs.minigames.tictactoe\<close>, which would load,
  is never tried.
\<close>

theorem startup_aborts_counterexample:
  "get_allowed_extensions example_fs = Inr [''cogs.admin'', ''cogs.error'', ''cogs.minigames.tictactoe'']
   \<and> init_extensions example_host example_fs fresh_bot
       = (Inl (LoadError ''boom''), \<lparr>extensions = [''cogs.admin''], world = ()\<rparr>)
   \<and> load_extension example_host \<lparr>extensions = [''cogs.admin''], world = ()\<rparr> ''cogs.minigames.tictactoe''
       = (Inr (), \<lparr>extensions = [''cogs.admin'', ''cogs.minigames.tictactoe''], world = ()\<rparr>)"
  by code_simp

text \<open>
  Claim C6, as amended. When a configured directory does not exist, \<^verbatim>\<open>reload all\<close>
  does not skip it: \<^verbatim>\<open>FileNotFoundError\<close> for a missing directory leaves the command,
  before any extension is unloaded or loaded and without a report. The command itself
  does not catch it.
\<close>

theorem reload_all_missing_directory:
  assumes "d \<in> set EXTENSIONS_DIRS" and "fs d = None"
  shows "\<exists>d' \<in> set EXTENSIONS_DIRS. fs d' = None
           \<and> reload_all c h fs b = (Inl (FileNotFoundError d'), b)"
proof (cases "fs ''./cogs''")
  case None
  then have "reload_all c h fs b = (Inl (FileNotFoundError ''./cogs''), b)"
    by (simp add: reload_all_def get_allowed_extensions_def EXTENSIONS_DIRS_def)
  with None show ?thesis by (auto simp: EXTENSIONS_DIRS_def)
next
  case (Some n1)
  with assms have m: "fs ''./cogs/minigames'' = None"
    by (auto simp: EXTENSIONS_DIRS_def)
  with Some have "reload_all c h fs b = (Inl (FileNotFoundError ''./cogs/minigames''), b)"
    by (simp add: reload_all_def get_allowed_extensions_def EXTENSIONS_DIRS_def)
  with m show ?thesis by (auto simp: EXTENSIONS_DIRS_def)
qed

theorem reload_all_missing_directory_witness:
  "''./cogs/minigames'' \<in> set EXTENSIONS_DIRS \<and> missing_fs ''./cogs/minigames'' = None
   \<and> (\<exists>d' \<in> set EXTENSIONS_DIRS. missing_fs d' = None
         \<and> reload_all example_common example_host missing_fs example_bot
             = (Inl (FileNotFoundError d'), example_bot))"
proof -
  have d: "''./cogs/minigames'' \<in> set EXTENSIONS_DIRS"
    by (simp add: EXTENSIONS_DIRS_def)
  have m: "missing_fs ''./cogs/minigames'' = None"
    by (simp add: missing_fs_def)
  from reload_all_missing_directory[of "''./cogs/minigames''" missing_fs example_common example_host example_bot, OF d m] d m
  show ?thesis by blast
qed

text \<open>
  Claim C6 as stated fails: with \<open>./cogs/minigames\<close> missing the command ends with the
  exception, not with a reply.
\<close>

theorem reload_all_uncaught_counterexample:
  "missing_fs ''./cogs/minigames'' = None
   \<and> reload_all example_common example_host missing_fs example_bot
       = (Inl (FileNotFoundError ''./cogs/minigames''), example_bot)"
  by code_simp

text \<open>
  Claim C7, as amended. Every item of the failed list of a pass is the identifier of an
  extension of the unload set or of the desired list in backquotes, a colon, and the
  class name of an exception in backquotes, and nothing else; the class name is that of
  the exception the operation raised. The rendered description ends with the failed
  block: the header with the number of items, then the items, one per line. The
  message of the exception is not part of an item.
\<close>

theorem failed_item_format:
  assumes "reload_all_lists h b desired = (r, b')"
  shows "(\<forall>f \<in> set (failed_items r). \<exists>i \<in> set (future_unload b desired) \<union> set desired.
            \<exists>e. f = ''`'' @ i @ ''`: `'' @ class_name e @ ''`'')
       \<and> (\<forall>x e b1. reload_or_load_extension h b x = (Inl e, b1) \<longrightarrow>
            failed_items (fst (load_loop h [x] no_items b)) = [''`'' @ x @ ''`: `'' @ class_name e @ ''`''])
       \<and> (\<forall>x e b1. unload_extension h b x = (Inl e, b1) \<longrightarrow>
            failed_items (fst (unload_loop h [x] no_items b)) = [''`'' @ x @ ''`: `'' @ class_name e @ ''`''])
       \<and> (failed_items r \<noteq> [] \<longrightarrow>
            (\<exists>pre. description (create_cogs_embed c (loaded_items r) (unloaded_items r)
                                  (Some (reloaded_items r)) (Some (failed_items r)))
               = pre @ emoji_x c @ '' **Failed - ['' @ str_nat (length (failed_items r)) @ '']**\<newline>''
                     @ join ''\<newline>'' (failed_items r)))"
proof -
  have "\<forall>f \<in> set (failed_items r). \<exists>i \<in> set (future_unload b desired) \<union> set desired.
            \<exists>e. f = ''`'' @ i @ ''`: `'' @ class_name e @ ''`''"
    using reload_all_lists_outcomes(4)[OF assms] by (simp add: failed_str_def)
  moreover have "\<forall>x e b1. reload_or_load_extension h b x = (Inl e, b1) \<longrightarrow>
            failed_items (fst (load_loop h [x] no_items b)) = [''`'' @ x @ ''`: `'' @ class_name e @ ''`'']"
    by (simp add: failed_str_def no_items_def)
  moreover have "\<forall>x e b1. unload_extension h b x = (Inl e, b1) \<longrightarrow>
            failed_items (fst (unload_loop h [x] no_items b)) = [''`'' @ x @ ''`: `'' @ class_name e @ ''`'']"
    by (simp add: failed_str_def no_items_def)
  moreover have "failed_items r \<noteq> [] \<longrightarrow>
            (\<exists>pre. description (create_cogs_embed c (loaded_items r) (unloaded_items r)
                                  (Some (reloaded_items r)) (Some (failed_items r)))
               = pre @ emoji_x c @ '' **Failed - ['' @ str_nat (length (failed_items r)) @ '']**\<newline>''
                     @ join ''\<newline>'' (failed_items r))"
    using description_failed by blast
  ultimately show ?thesis by blast
qed

theorem failed_item_format_witness:
  "reload_all_lists example_host example_bot example_desired = (example_lists, example_bot_after)
   \<and> ''`cogs.error`: `LoadError`'' \<in> set (failed_items example_lists)
   \<and> (\<exists>i \<in> set (future_unload example_bot example_desired) \<union> set example_desired.
         \<exists>e. ''`cogs.error`: `LoadError`'' = ''`'' @ i @ ''`: `'' @ class_name e @ ''`'')
   \<and> reload_or_load_extension example_host example_bot ''cogs.error''
       = (Inl (LoadError ''boom''), example_bot)
   \<and> failed_items (fst (load_loop example_host [''cogs.error''] no_items example_bot))
       = [''`cogs.error`: `LoadError`'']
   \<and> unload_extension example_host example_bot ''cogs.old'' = (Inl (UnloadError ''stuck''), example_bot)
   \<and> failed_items (fst (unload_loop example_host [''cogs.old''] no_items example_bot))
       = [''`cogs.old`: `UnloadError`'']
   \<and> failed_items example_lists \<noteq> []
   \<and> (\<exists>pre. description (create_cogs_embed example_common (loaded_items example_lists)
                (unloaded_items example_lists) (Some (reloaded_items example_lists))
                (Some (failed_items example_lists)))
         = pre @ '':x: **Failed - [2]**\<newline>`cogs.old`: `UnloadError`\<newline>`cogs.error`: `LoadError`'')"
proof -
  have p: "reload_all_lists example_host example_bot example_desired = (example_lists, example_bot_after)"
    by (rule example_pass)
  have m: "''`cogs.error`: `LoadError`'' \<in> set (failed_items example_lists)"
    "failed_items example_lists \<noteq> []"
    by (simp_all add: example_lists_def)
  have r: "reload_or_load_extension example_host example_bot ''cogs.error''
       = (Inl (LoadError ''boom''), example_bot)"
    by code_simp
  have u: "unload_extension example_host example_bot ''cogs.old'' = (Inl (UnloadError ''stuck''), example_bot)"
    by code_simp
  have s: "emoji_x example_common @ '' **Failed - ['' @ str_nat (length (failed_items example_lists))
        @ '']**\<newline>'' @ join ''\<newline>'' (failed_items example_lists)
      = '':x: **Failed - [2]**\<newline>`cogs.old`: `UnloadError`\<newline>`cogs.error`: `LoadError`''"
    by code_simp
  from failed_item_format[OF p, of example_common] have
    f1: "\<forall>f \<in> set (failed_items example_lists).
           \<exists>i \<in> set (future_unload example_bot example_desired) \<union> set example_desired.
             \<exists>e. f = ''`'' @ i @ ''`: `'' @ class_name e @ ''`''"
    and f2: "\<forall>x e b1. reload_or_load_extension example_host example_bot x = (Inl e, b1) \<longrightarrow>
            failed_items (fst (load_loop example_host [x] no_items example_bot))
              = [''`'' @ x @ ''`: `'' @ class_name e @ ''`'']"
    and f3: "\<forall>x e b1. unload_extension example_host example_bot x = (Inl e, b1) \<longrightarrow>
            failed_items (fst (unload_loop example_host [x] no_items example_bot))
              = [''`'' @ x @ ''`: `'' @ class_name e @ ''`'']"
    and f4: "failed_items example_lists \<noteq> [] \<longrightarrow>
            (\<exists>pre. description (create_cogs_embed example_common (loaded_items example_lists)
                (unloaded_items example_lists) (Some (reloaded_items example_lists))
                (Some (failed_items example_lists)))
               = pre @ emoji_x example_common @ '' **Failed - [''
                     @ str_nat (length (failed_items example_lists)) @ '']**\<newline>''
                     @ join ''\<newline>'' (failed_items example_lists))"
    by blast+
  from f1 m(1) have g1: "\<exists>i \<in> set (future_unload example_bot example_desired) \<union> set example_desired.
         \<exists>e. ''`cogs.error`: `LoadError`'' = ''`'' @ i @ ''`: `'' @ class_name e @ ''`''"
    by blast
  from f2 r have g2: "failed_items (fst (load_loop example_host [''cogs.error''] no_items example_bot))
       = [''`cogs.error`: `LoadError`'']"
    by fastforce
  from f3 u have g3: "failed_items (fst (unload_loop example_host [''cogs.old''] no_items example_bot))
       = [''`cogs.old`: `UnloadError`'']"
    by fastforce
  from f4 m(2) s have g4: "\<exists>pre. description (create_cogs_embed example_common (loaded_items example_lists)
                (unloaded_items example_lists) (Some (reloaded_items example_lists))
                (Some (failed_items example_lists)))
         = pre @ '':x: **Failed - [2]**\<newline>`cogs.old`: `UnloadError`\<newline>`cogs.error`: `LoadError`''"
    by simp
  from p m r u g1 g2 g3 g4 show ?thesis by blast
qed

text \<open>
  Claim C7 as stated fails: the setup of \<open>cogs.error\<close> raises with the message
  \<open>boom\<close>, and the message occurs nowhere in the report.
\<close>

theorem failed_item_message_counterexample:
  "reload_or_load_extension example_host fresh_bot ''cogs.error''
     = (Inl (LoadError ''boom''), fresh_bot)
   \<and> message (LoadError ''boom'') = ''boom''
   \<and> get_allowed_extensions example_fs = Inr [''cogs.admin'', ''cogs.error'', ''cogs.minigames.tictactoe'']
   \<and> fst (reload_all example_common example_host example_fs fresh_bot)
       = Inr \<lparr>color = 0,
              description = '':arrow_up: **Loaded - [2]**\<newline>`cogs.admin`\<newline>`cogs.minigames.tictactoe`\<newline>\<newline>:x: **Failed - [1]**\<newline>`cogs.error`: `LoadError`'',
              title = Some ''Cogs Update''\<rparr>
   \<and> \<not> contains '':arrow_up: **Loaded - [2]**\<newline>`cogs.admin`\<newline>`cogs.minigames.tictactoe`\<newline>\<newline>:x: **Failed - [1]**\<newline>`cogs.error`: `LoadError`'' ''boom''"
  by code_simp

text \<open>
  Claim C8, as amended. In a second pass over the same list \<open>desired\<close>, the unload set
  holds only identifiers that have a failed item in the first pass, and every identifier
  of \<open>desired\<close> with no failed item in either pass is reloaded and not loaded. So when
  the first pass records no failure, the second has an empty unload set and unloads
  nothing; and when the second records none either, it loads nothing and its reloaded
  list is \<open>desired\<close>, in order.
\<close>

theorem second_pass_reloads:
  assumes first: "reload_all_lists h b desired = (r1, b1)"
    and second: "reload_all_lists h b1 desired = (r2, b2)"
  shows "(\<forall>i \<in> set (future_unload b1 desired). \<exists>e. failed_str i e \<in> set (failed_items r1))
       \<and> (\<forall>i \<in> set desired.
            (\<forall>e. failed_str i e \<notin> set (failed_items r1))
            \<and> (\<forall>e. failed_str i e \<notin> set (failed_items r2)) \<longrightarrow>
            ext_str i \<in> set (reloaded_items r2) \<and> ext_str i \<notin> set (loaded_items r2))
       \<and> (failed_items r1 = [] \<longrightarrow>
            future_unload b1 desired = [] \<and> unloaded_items r2 = []
            \<and> (failed_items r2 = [] \<longrightarrow>
                 loaded_items r2 = [] \<and> reloaded_items r2 = map ext_str desired))"
proof -
  from second obtain r0 b0 where
    u: "unload_loop h (future_unload b1 desired) no_items b1 = (r0, b0)"
    and l: "load_loop h desired r0 b0 = (r2, b2)"
    by (rule reload_all_lists_loops)
  have unload_set: "\<forall>i \<in> set (future_unload b1 desired). \<exists>e. failed_str i e \<in> set (failed_items r1)"
  proof (rule ballI, rule ccontr)
    fix i assume i: "i \<in> set (future_unload b1 desired)"
      and "\<not> (\<exists>e. failed_str i e \<in> set (failed_items r1))"
    then have "\<forall>e. failed_str i e \<notin> set (failed_items r1)" by blast
    from reload_all_lists_membership[OF first this] i show False
      by (simp add: set_future_unload)
  qed
  have per_id: "\<forall>i \<in> set desired.
            (\<forall>e. failed_str i e \<notin> set (failed_items r1))
            \<and> (\<forall>e. failed_str i e \<notin> set (failed_items r2)) \<longrightarrow>
            ext_str i \<in> set (reloaded_items r2) \<and> ext_str i \<notin> set (loaded_items r2)"
  proof (intro ballI impI)
    fix i assume i: "i \<in> set desired"
      and nf: "(\<forall>e. failed_str i e \<notin> set (failed_items r1))
            \<and> (\<forall>e. failed_str i e \<notin> set (failed_items r2))"
    from reload_all_lists_membership[OF first] nf i have "i \<in> set (extensions b1)" by blast
    moreover from i have "i \<notin> set (future_unload b1 desired)" by (simp add: set_future_unload)
    ultimately have "i \<in> set (extensions b0)" using unload_loop_other[OF u] by blast
    from load_loop_active_reloaded[OF l this] nf i unload_loop_items[OF u]
    show "ext_str i \<in> set (reloaded_items r2) \<and> ext_str i \<notin> set (loaded_items r2)"
      by (auto simp: no_items_def)
  qed
  have clean: "failed_items r1 = [] \<longrightarrow>
            future_unload b1 desired = [] \<and> unloaded_items r2 = []
            \<and> (failed_items r2 = [] \<longrightarrow>
                 loaded_items r2 = [] \<and> reloaded_items r2 = map ext_str desired)"
  proof
    assume c: "failed_items r1 = []"
    with unload_set have none: "future_unload b1 desired = []"
      by (cases "future_unload b1 desired") auto
    with u have r0: "r0 = no_items" "b0 = b1" by simp_all
    from load_loop_items[OF l] r0 have un: "unloaded_items r2 = []"
      by (simp add: no_items_def)
    from c have "\<forall>e. failed_str i e \<notin> set (failed_items r1)" for i by simp
    from reload_all_lists_membership[OF first this]
    have same: "set (extensions b1) = set desired" by blast
    from load_loop_reloaded[OF l] same r0
    have "failed_items r2 = [] \<longrightarrow> loaded_items r2 = [] \<and> reloaded_items r2 = map ext_str desired"
      by (simp add: no_items_def)
    with none un show "future_unload b1 desired = [] \<and> unloaded_items r2 = []
            \<and> (failed_items r2 = [] \<longrightarrow>
                 loaded_items r2 = [] \<and> reloaded_items r2 = map ext_str desired)"
      by blast
  qed
  from unload_set per_id clean show ?thesis by (intro conjI)
qed

theorem second_pass_reloads_witness:
  "reload_all_lists example_host example_bot example_desired = (example_lists, example_bot_after)
   \<and> reload_all_lists example_host example_bot_after example_desired
       = (example_lists_again, example_bot_after)
   \<and> ''cogs.old'' \<in> set (future_unload example_bot_after example_desired)
   \<and> (\<exists>e. failed_str ''cogs.old'' e \<in> set (failed_items example_lists))
   \<and> ''cogs.admin'' \<in> set example_desired
   \<and> (\<forall>e. failed_str ''cogs.admin'' e \<notin> set (failed_items example_lists))
   \<and> (\<forall>e. failed_str ''cogs.admin'' e \<notin> set (failed_items example_lists_again))
   \<and> ext_str ''cogs.admin'' \<in> set (reloaded_items example_lists_again)
   \<and> ext_str ''cogs.admin'' \<notin> set (loaded_items example_lists_again)
   \<and> reload_all_lists example_host \<lparr>extensions = [''cogs.gone'', ''cogs.admin''], world = ()\<rparr>
       [''cogs.admin'', ''cogs.minigames.tictactoe'']
     = (\<lparr>loaded_items = [''`cogs.minigames.tictactoe`''], unloaded_items = [''`cogs.gone`''],
         reloaded_items = [''`cogs.admin`''], failed_items = []\<rparr>,
        \<lparr>extensions = [''cogs.admin'', ''cogs.minigames.tictactoe''], world = ()\<rparr>)
   \<and> reload_all_lists example_host \<lparr>extensions = [''cogs.admin'', ''cogs.minigames.tictactoe''], world = ()\<rparr>
       [''cogs.admin'', ''cogs.minigames.tictactoe'']
     = (\<lparr>loaded_items = [], unloaded_items = [],
         reloaded_items = [''`cogs.admin`'', ''`cogs.minigames.tictactoe`''], failed_items = []\<rparr>,
        \<lparr>extensions = [''cogs.admin'', ''cogs.minigames.tictactoe''], world = ()\<rparr>)
   \<and> future_unload \<lparr>extensions = [''cogs.admin'', ''cogs.minigames.tictactoe''], world = ()\<rparr>
       [''cogs.admin'', ''cogs.minigames.tictactoe''] = []
   \<and> map ext_str [''cogs.admin'', ''cogs.minigames.tictactoe'']
       = [''`cogs.admin`'', ''`cogs.minigames.tictactoe`'']"
proof -
  have p1: "reload_all_lists example_host example_bot example_desired = (example_lists, example_bot_after)"
    by (rule example_pass)
  have p2: "reload_all_lists example_host example_bot_after example_desired
       = (example_lists_again, example_bot_after)"
    by (rule example_second_pass)
  have m: "''cogs.old'' \<in> set (future_unload example_bot_after example_desired)"
    "''cogs.admin'' \<in> set example_desired"
    by code_simp+
  have nf: "\<forall>e. failed_str ''cogs.admin'' e \<notin> set (failed_items example_lists)"
    "\<forall>e. failed_str ''cogs.admin'' e \<notin> set (failed_items example_lists_again)"
    by (simp_all add: failed_str_def example_lists_def example_lists_again_def)
  have q1: "reload_all_lists example_host \<lparr>extensions = [''cogs.gone'', ''cogs.admin''], world = ()\<rparr>
       [''cogs.admin'', ''cogs.minigames.tictactoe'']
     = (\<lparr>loaded_items = [''`cogs.minigames.tictactoe`''], unloaded_items = [''`cogs.gone`''],
         reloaded_items = [''`cogs.admin`''], failed_items = []\<rparr>,
        \<lparr>extensions = [''cogs.admin'', ''cogs.minigames.tictactoe''], world = ()\<rparr>)"
    by code_simp
  have q2: "reload_all_lists example_host \<lparr>extensions = [''cogs.admin'', ''cogs.minigames.tictactoe''], world = ()\<rparr>
       [''cogs.admin'', ''cogs.minigames.tictactoe'']
     = (\<lparr>loaded_items = [], unloaded_items = [],
         reloaded_items = [''`cogs.admin`'', ''`cogs.minigames.tictactoe`''], failed_items = []\<rparr>,
        \<lparr>extensions = [''cogs.admin'', ''cogs.minigames.tictactoe''], world = ()\<rparr>)"
    by code_simp
  note t = second_pass_reloads[OF p1 p2]
  from t m(1) have g1: "\<exists>e. failed_str ''cogs.old'' e \<in> set (failed_items example_lists)"
    by blast
  from t m(2) nf have g2: "ext_str ''cogs.admin'' \<in> set (reloaded_items example_lists_again)
      \<and> ext_str ''cogs.admin'' \<notin> set (loaded_items example_lists_again)"
    by blast
  from second_pass_reloads[OF q1 q2] have g3:
    "future_unload \<lparr>extensions = [''cogs.admin'', ''cogs.minigames.tictactoe''], world = ()\<rparr>
       [''cogs.admin'', ''cogs.minigames.tictactoe''] = []
     \<and> map ext_str [''cogs.admin'', ''cogs.minigames.tictactoe'']
       = [''`cogs.admin`'', ''`cogs.minigames.tictactoe`'']"
    by simp
  from p1 p2 m nf q1 q2 g1 g2 g3 show ?thesis by blast
qed

text \<open>
  Claim C8 as stated fails: an extension whose setup raises fails in the first pass and,
  with nothing changed, fails again in the second, where nothing is reloaded.
\<close>

theorem second_pass_counterexample:
  "reload_all_lists example_host fresh_bot [''cogs.error'']
     = (no_items\<lparr>failed_items := [''`cogs.error`: `LoadError`'']\<rparr>, fresh_bot)
   \<and> reloaded_items (fst (reload_all_lists example_host
         (snd (reload_all_lists example_host fresh_bot [''cogs.error''])) [''cogs.error''])) = []
   \<and> failed_items (fst (reload_all_lists example_host
         (snd (reload_all_lists example_host fresh_bot [''cogs.error''])) [''cogs.error'']))
       = [''`cogs.error`: `LoadError`'']"
  by code_simp

text \<open>
  Claim C10. In \<^verbatim>\<open>cogs list\<close> the loaded and the unloaded list have no item in common,
  and every active extension is in the loaded list, whatever the unfiltered Discovery
  returned.
\<close>

theorem cogs_list_lists:
  "set (cogs_list_loaded b) \<inter> set (cogs_list_unloaded b all_extensions) = {}
   \<and> (\<forall>i \<in> set (extensions b). ext_str i \<in> set (cogs_list_loaded b))"
  by (auto simp: cogs_list_loaded_def cogs_list_unloaded_def inj_ext_str)

theorem cogs_list_lists_witness:
  "''jishaku'' \<in> set (extensions \<lparr>extensions = [''cogs.admin'', ''jishaku''], world = ()\<rparr>)
   \<and> get_all_extensions example_fs
       = Inr [''cogs.admin'', ''cogs.!dev'', ''cogs.error'', ''cogs.minigames.tictactoe'']
   \<and> ''jishaku'' \<notin> set [''cogs.admin'', ''cogs.!dev'', ''cogs.error'', ''cogs.minigames.tictactoe'']
   \<and> ext_str ''jishaku'' \<in> set (cogs_list_loaded \<lparr>extensions = [''cogs.admin'', ''jishaku''], world = ()\<rparr>)
   \<and> set (cogs_list_loaded \<lparr>extensions = [''cogs.admin'', ''jishaku''], world = ()\<rparr>)
       \<inter> set (cogs_list_unloaded \<lparr>extensions = [''cogs.admin'', ''jishaku''], world = ()\<rparr>
                [''cogs.admin'', ''cogs.!dev'', ''cogs.error'', ''cogs.minigames.tictactoe'']) = {}"
proof -
  have a: "''jishaku'' \<in> set (extensions \<lparr>extensions = [''cogs.admin'', ''jishaku''], world = ()\<rparr>)"
    by simp
  have e: "get_all_extensions example_fs
       = Inr [''cogs.admin'', ''cogs.!dev'', ''cogs.error'', ''cogs.minigames.tictactoe'']"
    by code_simp
  from cogs_list_lists[of "\<lparr>extensions = [''cogs.admin'', ''jishaku''], world = ()\<rparr>"
      "[''cogs.admin'', ''cogs.!dev'', ''cogs.error'', ''cogs.minigames.tictactoe'']"] a e
  show ?thesis by simp
qed

end
